theory Spec2Isabelle
  imports Complex_Main "HOL-Library.Word"
begin

unbundle bit_operations_syntax

section \<open>Exceptions, paths and the file system\<close>

text \<open>
  Every exception the library calls of \<^verbatim>\<open>image_preprocessor.py\<close> can raise derives from
  Python's \<^verbatim>\<open>Exception\<close>; the handlers of the module are all \<^verbatim>\<open>except Exception as e\<close>.
  A computation that may raise returns \<open>exn + 'a\<close>, \<open>Inl\<close> carrying the exception.
\<close>

datatype exn = CvError string | OSError string | TypeError string | ValueError string

fun exn_str :: "exn \<Rightarrow> string" where
  "exn_str (CvError m) = m"
| "exn_str (OSError m) = m"
| "exn_str (TypeError m) = m"
| "exn_str (ValueError m) = m"

definition bind_e :: "exn + 'a \<Rightarrow> ('a \<Rightarrow> exn + 'b) \<Rightarrow> exn + 'b" where
  "bind_e m f = (case m of Inl e \<Rightarrow> Inl e | Inr x \<Rightarrow> f x)"

subsection \<open>\<^verbatim>\<open>os.path.basename\<close> and \<^verbatim>\<open>os.path.splitext\<close> (posixpath)\<close>

text \<open>\<^verbatim>\<open>str.rfind(c)\<close>: the highest index of \<open>c\<close>, or \<open>-1\<close>.\<close>

fun rfind :: "string \<Rightarrow> char \<Rightarrow> int" where
  "rfind [] c = -1"
| "rfind (x # xs) c =
     (let r = rfind xs c in if 0 \<le> r then r + 1 else if x = c then 0 else -1)"

text \<open>\<^verbatim>\<open>i = p.rfind('/') + 1; return p[i:]\<close>\<close>

definition basename :: "string \<Rightarrow> string" where
  "basename p = drop (nat (rfind p CHR ''/'' + 1)) p"

text \<open>
  \<^verbatim>\<open>genericpath._splitext(p, '/', None, '.')\<close>: the extension starts at the last dot after
  the last separator, unless only dots stand between the separator and that dot.
\<close>

definition splitext :: "string \<Rightarrow> string \<times> string" where
  "splitext p =
     (let sepIndex = rfind p CHR ''/'';
          dotIndex = rfind p CHR ''.''
      in if dotIndex > sepIndex \<and>
            list_ex (\<lambda>c. c \<noteq> CHR ''.'')
              (take (nat dotIndex - nat (sepIndex + 1)) (drop (nat (sepIndex + 1)) p))
         then (take (nat dotIndex) p, drop (nat dotIndex) p)
         else (p, []))"

text \<open>\<^verbatim>\<open>base_name = os.path.splitext(os.path.basename(image_path))[0]\<close>\<close>

definition stem :: "string \<Rightarrow> string" where
  "stem image_path = fst (splitext (basename image_path))"

subsection \<open>Images and files\<close>

type_synonym pixel = "8 word"
type_synonym image = "pixel list list"
type_synonym bgr_image = "(pixel \<times> pixel \<times> pixel) list list"

text \<open>
  A file holds a colour raster, a single-channel raster (what \<^verbatim>\<open>cv2.imwrite\<close> stores for
  a grayscale array) or bytes no decoder reads. The file system maps the name under
  which the operating system keeps a file to its contents; a path string reaches a file
  through the operating system's name resolution, so several spellings (\<^verbatim>\<open>a.png\<close>,
  \<^verbatim>\<open>./a.png\<close>) can reach one file. Standard output is the list of printed lines.
\<close>

datatype disk_file = Colour bgr_image | Gray image | Junk

record world =
  fs :: "string \<rightharpoonup> disk_file"
  stdout :: "string list"

section \<open>The environment: the imaging library and the operating system\<close>

text \<open>
  The module calls OpenCV and PIL. A numpy array is a list of rows of one length. What a
  library call computes with floating point or by a search (colour conversion, the
  minimum-area rectangle, rotation, Otsu's level, denoising, contrast equalisation, the
  Gaussian local mean, contour tracing, polygon rasterisation, encoding) is a field of
  the environment; each call that allocates or touches a file may raise. The pixel-wise
  operations on 8-bit arrays are written out below from the library's documentation.
  The operating system contributes the resolution of a path string to the name of the
  file it reaches, the refusal of a deletion, and the failure of \<^verbatim>\<open>print\<close> (a closed or
  full standard output, a line it cannot encode).
\<close>

type_synonym contour = "(int \<times> int) list"

record env =
  cvtColor :: "bgr_image \<Rightarrow> exn + image"
  minAreaRect :: "(nat \<times> nat) list \<Rightarrow> exn + real"
  getRotationMatrix2D :: "nat \<times> nat \<Rightarrow> real \<Rightarrow> real \<Rightarrow> exn + real list list"
  warpAffine :: "image \<Rightarrow> real list list \<Rightarrow> nat \<times> nat \<Rightarrow> exn + image"
  otsu :: "image \<Rightarrow> nat"
  findContours :: "image \<Rightarrow> exn + contour list"
  contourArea :: "contour \<Rightarrow> exn + real"
  polygon :: "contour \<Rightarrow> nat \<Rightarrow> nat \<Rightarrow> bool"
  fastNlMeansDenoising :: "image \<Rightarrow> real \<Rightarrow> nat \<Rightarrow> nat \<Rightarrow> exn + image"
  clahe_apply :: "real \<Rightarrow> nat \<times> nat \<Rightarrow> image \<Rightarrow> exn + image"
  gaussian_mean :: "nat \<Rightarrow> image \<Rightarrow> nat \<Rightarrow> nat \<Rightarrow> pixel"
  convertScaleAbs :: "image \<Rightarrow> real \<Rightarrow> real \<Rightarrow> exn + image"
  bilateralFilter :: "image \<Rightarrow> nat \<Rightarrow> real \<Rightarrow> real \<Rightarrow> exn + image"
  imwrite_outcome :: "string \<Rightarrow> image \<Rightarrow> exn + bool"
  pil_convert_L :: "bgr_image \<Rightarrow> exn + image"
  contrast_enhance :: "image \<Rightarrow> real \<Rightarrow> exn + image"
  save_error :: "string \<Rightarrow> exn option"
  resolve :: "string \<Rightarrow> string"
  remove_error :: "string \<Rightarrow> exn option"
  print_error :: "string \<Rightarrow> exn option"

subsection \<open>\<^verbatim>\<open>print\<close>, \<^verbatim>\<open>os.path.exists\<close> and \<^verbatim>\<open>os.remove\<close>\<close>

text \<open>\<^verbatim>\<open>print(line)\<close> raises, or appends the line to standard output.\<close>

definition py_print :: "env \<Rightarrow> string \<Rightarrow> world \<Rightarrow> (exn + unit) \<times> world" where
  "py_print env line w =
     (case print_error env line of
        Some e \<Rightarrow> (Inl e, w)
      | None \<Rightarrow> (Inr (), w\<lparr>stdout := stdout w @ [line]\<rparr>))"

text \<open>A statement followed by \<^verbatim>\<open>return x\<close>: the value is returned unless the statement raised.\<close>

definition then_return :: "(exn + unit) \<times> world \<Rightarrow> 'a \<Rightarrow> (exn + 'a) \<times> world" where
  "then_return pw x = (case pw of (Inl e, w') \<Rightarrow> (Inl e, w') | (Inr u, w') \<Rightarrow> (Inr x, w'))"

definition exists :: "env \<Rightarrow> world \<Rightarrow> string \<Rightarrow> bool" where
  "exists env w p = (fs w (resolve env p) \<noteq> None)"

text \<open>
  \<^verbatim>\<open>os.remove\<close> raises when the path reaches no file, and when the operating system
  refuses the deletion (\<open>remove_error\<close>: permissions, a directory, a locked file);
  otherwise the file the path reaches is gone, under every spelling.
\<close>

definition os_remove :: "env \<Rightarrow> string \<Rightarrow> world \<Rightarrow> (exn + unit) \<times> world" where
  "os_remove env p w =
     (if fs w (resolve env p) = None then (Inl (OSError ''No such file or directory''), w)
      else case remove_error env p of
             Some e \<Rightarrow> (Inl e, w)
           | None \<Rightarrow> (Inr (), w\<lparr>fs := (fs w)(resolve env p := None)\<rparr>))"

text \<open>
  A \<^verbatim>\<open>try\<close> block with its \<^verbatim>\<open>except Exception as e\<close> handler: the effects of the body up to
  the raise stay, and what the handler raises leaves the function.
\<close>

definition try_except ::
  "(world \<Rightarrow> (exn + 'a) \<times> world) \<Rightarrow> (exn \<Rightarrow> world \<Rightarrow> (exn + 'a) \<times> world) \<Rightarrow>
     world \<Rightarrow> (exn + 'a) \<times> world" where
  "try_except body handler w =
     (case body w of
        (Inl e, w') \<Rightarrow> handler e w'
      | (Inr x, w') \<Rightarrow> (Inr x, w'))"

section \<open>Temporary artifact lifecycle: \<^verbatim>\<open>cleanup_temp_files\<close>\<close>

text \<open>The \<^verbatim>\<open>for method_file in [...]\<close> loop; a raise leaves the loop.\<close>

fun remove_method_files :: "env \<Rightarrow> string list \<Rightarrow> world \<Rightarrow> (exn + unit) \<times> world" where
  "remove_method_files env [] w = (Inr (), w)"
| "remove_method_files env (method_file # rest) w =
     (if exists env w method_file
      then (case os_remove env method_file w of
              (Inl e, w') \<Rightarrow> (Inl e, w')
            | (Inr _, w') \<Rightarrow> remove_method_files env rest w')
      else remove_method_files env rest w)"

definition method_files :: "string \<Rightarrow> string list" where
  "method_files original_path =
     (let base_name = stem original_path
      in [''temp_'' @ base_name @ ''_method1.png'',
          ''temp_'' @ base_name @ ''_method2.png'',
          ''temp_'' @ base_name @ ''_method3.png''])"

definition cleanup_body :: "env \<Rightarrow> string \<Rightarrow> string \<Rightarrow> world \<Rightarrow> (exn + unit) \<times> world" where
  "cleanup_body env temp_path original_path w =
     (if temp_path \<noteq> original_path \<and> exists env w temp_path
      then (case os_remove env temp_path w of
              (Inl e, w') \<Rightarrow> (Inl e, w')
            | (Inr _, w') \<Rightarrow> remove_method_files env (method_files original_path) w')
      else (Inr (), w))"

text \<open>The \<^verbatim>\<open>try\<close> with its \<^verbatim>\<open>except Exception\<close> handler, which prints and falls off the end.\<close>

definition cleanup_temp_files :: "env \<Rightarrow> string \<Rightarrow> string \<Rightarrow> world \<Rightarrow> (exn + unit) \<times> world" where
  "cleanup_temp_files env temp_path original_path =
     try_except (cleanup_body env temp_path original_path)
       (\<lambda>e w. py_print env
          (''Warning: Could not clean up temp file '' @ temp_path @ '': '' @ exn_str e) w)"

section \<open>Arrays and the pixel-wise library operations\<close>

text \<open>\<^verbatim>\<open>img.shape[:2]\<close> of an array: rows, then columns.\<close>

definition shape :: "'a list list \<Rightarrow> nat \<times> nat" where
  "shape img = (length img, case img of [] \<Rightarrow> 0 | row # _ \<Rightarrow> length row)"

text \<open>Two arrays have the same dimensions, row by row.\<close>

definition same_size :: "'a list list \<Rightarrow> 'b list list \<Rightarrow> bool" where
  "same_size a b = (map length a = map length b)"

text \<open>A two-level image: every sample is 0 or 255.\<close>

definition binary :: "image \<Rightarrow> bool" where
  "binary img = (\<forall>row \<in> set img. \<forall>v \<in> set row. v = 0 \<or> v = 255)"

subsection \<open>\<^verbatim>\<open>cv2.imread\<close> and \<^verbatim>\<open>cv2.imwrite\<close>\<close>

text \<open>
  \<^verbatim>\<open>cv2.imread\<close> returns \<^verbatim>\<open>None\<close> for a missing or undecodable file and a three-channel
  array otherwise (a single-channel file is replicated into the three channels).
\<close>

definition imread :: "env \<Rightarrow> world \<Rightarrow> string \<Rightarrow> bgr_image option" where
  "imread env w p =
     (case fs w (resolve env p) of
        Some (Colour im) \<Rightarrow> Some im
      | Some (Gray g) \<Rightarrow> Some (map (map (\<lambda>v. (v, v, v))) g)
      | _ \<Rightarrow> None)"

text \<open>
  \<^verbatim>\<open>cv2.imwrite\<close> raises, or returns \<^verbatim>\<open>False\<close> and writes nothing, or returns \<^verbatim>\<open>True\<close> with
  the array stored in the file the path reaches.
\<close>

definition imwrite :: "env \<Rightarrow> string \<Rightarrow> image \<Rightarrow> world \<Rightarrow> (exn + bool) \<times> world" where
  "imwrite env p img w =
     (case imwrite_outcome env p img of
        Inl e \<Rightarrow> (Inl e, w)
      | Inr True \<Rightarrow> (Inr True, w\<lparr>fs := (fs w)(resolve env p \<mapsto> Gray img)\<rparr>)
      | Inr False \<Rightarrow> (Inr False, w))"

subsection \<open>Thresholding\<close>

datatype thresh_type = THRESH_BINARY | THRESH_BINARY_INV

text \<open>
  \<^verbatim>\<open>cv2.threshold\<close> on an 8-bit array: \<^verbatim>\<open>THRESH_BINARY\<close> gives \<open>maxval\<close> where
  \<open>src > thresh\<close> and 0 elsewhere, \<^verbatim>\<open>THRESH_BINARY_INV\<close> the opposite. With
  \<^verbatim>\<open>THRESH_OTSU\<close> the caller passes Otsu's level as \<open>thresh\<close>.
\<close>

definition threshold :: "image \<Rightarrow> nat \<Rightarrow> pixel \<Rightarrow> thresh_type \<Rightarrow> image" where
  "threshold src thresh maxval ty =
     map (map (\<lambda>v. case ty of
                      THRESH_BINARY \<Rightarrow> if unat v > thresh then maxval else 0
                    | THRESH_BINARY_INV \<Rightarrow> if unat v > thresh then 0 else maxval)) src"

text \<open>
  \<^verbatim>\<open>cv2.adaptiveThreshold(src, maxValue, ADAPTIVE_THRESH_GAUSSIAN_C, THRESH_BINARY,
  blockSize, C)\<close>: \<open>maxValue\<close> where \<open>src - mean > -C\<close>, the mean being the
  Gaussian-weighted mean of the \<open>blockSize \<times> blockSize\<close> neighbourhood; 0 elsewhere.
\<close>

definition adaptiveThreshold :: "env \<Rightarrow> image \<Rightarrow> pixel \<Rightarrow> nat \<Rightarrow> int \<Rightarrow> image" where
  "adaptiveThreshold env src maxValue blockSize C =
     map (\<lambda>y. map (\<lambda>x.
            if int (unat (src ! y ! x)) - int (unat (gaussian_mean env blockSize src y x)) > - C
            then maxValue else 0)
          [0..<length (src ! y)])
       [0..<length src]"

subsection \<open>Pixel-wise arithmetic\<close>

text \<open>\<^verbatim>\<open>cv2.bitwise_or\<close> and \<^verbatim>\<open>cv2.subtract\<close> raise when the sizes of the arguments differ.\<close>

definition bitwise_or :: "image \<Rightarrow> image \<Rightarrow> exn + image" where
  "bitwise_or a b =
     (if same_size a b then Inr (map2 (map2 (\<lambda>u v. u OR v)) a b)
      else Inl (CvError ''Sizes of input arguments do not match''))"

text \<open>Saturating subtraction: \<open>max (a - b) 0\<close>.\<close>

definition subtract :: "image \<Rightarrow> image \<Rightarrow> exn + image" where
  "subtract a b =
     (if same_size a b then Inr (map2 (map2 (\<lambda>u v. if v \<le> u then u - v else 0)) a b)
      else Inl (CvError ''Sizes of input arguments do not match''))"

subsection \<open>Morphology with rectangular structuring elements\<close>

text \<open>
  A structuring element of ones is its shape \<open>(rows, columns)\<close>: \<^verbatim>\<open>np.ones((r, c))\<close>, and
  \<^verbatim>\<open>cv2.getStructuringElement(cv2.MORPH_RECT, (width, height))\<close> with the size given as
  width first.
\<close>

type_synonym kernel = "nat \<times> nat"

definition ones :: "nat \<Rightarrow> nat \<Rightarrow> kernel" where
  "ones r c = (r, c)"

definition getStructuringElement_RECT :: "nat \<times> nat \<Rightarrow> kernel" where
  "getStructuringElement_RECT ksize = (snd ksize, fst ksize)"

text \<open>
  The positions \<open>i + d - k div 2\<close> for \<open>d < k\<close> that lie inside an axis of length \<open>n\<close>:
  the anchor of the element is its centre \<open>k div 2\<close>, and the default border value
  leaves positions outside the image out of the minimum and of the maximum.
\<close>

definition window :: "nat \<Rightarrow> nat \<Rightarrow> nat \<Rightarrow> nat list" where
  "window n k i = filter (\<lambda>j. i \<le> j + k div 2 \<and> j + k div 2 < i + k) [0..<n]"

text \<open>
  \<^verbatim>\<open>cv2.erode\<close>: the minimum over the window; \<^verbatim>\<open>cv2.dilate\<close>: the maximum. The column
  bound is read off the row itself (all rows of an array have one length).
\<close>

definition neighbourhood :: "image \<Rightarrow> kernel \<Rightarrow> nat \<Rightarrow> nat \<Rightarrow> pixel list" where
  "neighbourhood img k y x =
     concat (map (\<lambda>yy. map (\<lambda>xx. img ! yy ! xx) (window (length (img ! yy)) (snd k) x))
               (window (length img) (fst k) y))"

definition erode :: "image \<Rightarrow> kernel \<Rightarrow> image" where
  "erode img k =
     map (\<lambda>y. map (\<lambda>x. fold min (neighbourhood img k y x) 255) [0..<length (img ! y)])
       [0..<length img]"

definition dilate :: "image \<Rightarrow> kernel \<Rightarrow> image" where
  "dilate img k =
     map (\<lambda>y. map (\<lambda>x. fold max (neighbourhood img k y x) 0) [0..<length (img ! y)])
       [0..<length img]"

datatype morph_op = MORPH_OPEN | MORPH_CLOSE

text \<open>Opening is erosion then dilation, closing is dilation then erosion.\<close>

definition morphologyEx :: "image \<Rightarrow> morph_op \<Rightarrow> kernel \<Rightarrow> image" where
  "morphologyEx src op k =
     (case op of
        MORPH_OPEN \<Rightarrow> dilate (erode src k) k
      | MORPH_CLOSE \<Rightarrow> erode (dilate src k) k)"

subsection \<open>Filling polygons\<close>

text \<open>
  \<^verbatim>\<open>cv2.fillPoly(img, pts, color)\<close> overwrites, for each polygon of \<open>pts\<close> in turn, the
  pixels the polygon covers (\<open>polygon env c y x\<close>) with the colour.
\<close>

definition fillPoly :: "env \<Rightarrow> image \<Rightarrow> contour list \<Rightarrow> pixel \<Rightarrow> image" where
  "fillPoly env img pts color =
     fold (\<lambda>c im. map (\<lambda>y. map (\<lambda>x. if polygon env c y x then color else im ! y ! x)
                              [0..<length (im ! y)])
                     [0..<length im])
       pts img"

section \<open>The military-grade pipeline: \<^verbatim>\<open>preprocess_image_for_ocr\<close>\<close>

text \<open>\<^verbatim>\<open>np.column_stack(np.where(gray > 0))\<close>: the (row, column) pairs, in row-major order.\<close>

definition foreground_coords :: "image \<Rightarrow> (nat \<times> nat) list" where
  "foreground_coords gray =
     concat (map (\<lambda>y. map (\<lambda>x. (y, x)) (filter (\<lambda>x. gray ! y ! x > 0) [0..<length (gray ! y)]))
               [0..<length gray])"

text \<open>Step 2 after the empty check: the angle and the rotation.\<close>

definition deskew :: "env \<Rightarrow> bgr_image \<Rightarrow> image \<Rightarrow> (nat \<times> nat) list \<Rightarrow> exn + image" where
  "deskew env img gray coords =
     bind_e (minAreaRect env coords) (\<lambda>raw.
       let angle = (if raw < -45 then - (90 + raw) else - raw)
       in if \<bar>angle\<bar> > 1
          then (let (h, w) = shape img;
                    center = (w div 2, h div 2)
                in bind_e (getRotationMatrix2D env center angle 1) (\<lambda>M.
                     warpAffine env gray M (w, h)))
          else Inr gray)"

text \<open>Step 5: the loop over the contours; \<^verbatim>\<open>processed\<close> is updated in place.\<close>

fun remove_small_blobs :: "env \<Rightarrow> contour list \<Rightarrow> image \<Rightarrow> exn + image" where
  "remove_small_blobs env [] processed = Inr processed"
| "remove_small_blobs env (contour # rest) processed =
     bind_e (contourArea env contour) (\<lambda>area.
       if area < 10
       then remove_small_blobs env rest (fillPoly env processed [contour] 0)
       else remove_small_blobs env rest processed)"

text \<open>Steps 3 to 5 on the deskewed image.\<close>

definition post_deskew :: "env \<Rightarrow> image \<Rightarrow> exn + image" where
  "post_deskew env rotated =
     (let thresh = threshold rotated (otsu env rotated) 255 THRESH_BINARY_INV;
          kernel = ones 3 3;
          processed = morphologyEx thresh MORPH_CLOSE kernel
      in bind_e (findContours env processed) (\<lambda>contours.
           remove_small_blobs env contours processed))"

text \<open>
  Steps 1 to 5 on a loaded image: \<open>None\<close> is the early return of the empty check,
  \<open>Some processed\<close> the array handed to \<^verbatim>\<open>cv2.imwrite\<close>.
\<close>

definition military_image :: "env \<Rightarrow> bgr_image \<Rightarrow> exn + image option" where
  "military_image env img =
     bind_e (cvtColor env img) (\<lambda>gray.
       let coords = foreground_coords gray
       in if length coords = 0 then Inr None
          else bind_e (deskew env img gray coords) (\<lambda>rotated.
                 bind_e (post_deskew env rotated) (\<lambda>processed. Inr (Some processed))))"

definition preprocess_image_for_ocr :: "env \<Rightarrow> string \<Rightarrow> world \<Rightarrow> (exn + string) \<times> world" where
  "preprocess_image_for_ocr env image_path =
     try_except
       (\<lambda>w. case imread env w image_path of
               None \<Rightarrow>
                 then_return (py_print env (''Warning: Could not load image '' @ image_path) w)
                   image_path
             | Some img \<Rightarrow>
                 (case military_image env img of
                    Inl e \<Rightarrow> (Inl e, w)
                  | Inr None \<Rightarrow>
                      then_return
                        (py_print env (''Warning: No content found in image '' @ image_path) w)
                        image_path
                  | Inr (Some processed) \<Rightarrow>
                      (let base_name = stem image_path;
                           temp_path = ''temp_military_processed_'' @ base_name @ ''_ocr.png''
                       in case imwrite env temp_path processed w of
                            (Inl e, w') \<Rightarrow> (Inl e, w')
                          | (Inr _, w') \<Rightarrow> (Inr temp_path, w'))))
       (\<lambda>e w. then_return
                 (py_print env
                    (''Military-grade preprocessing failed for '' @ image_path @ '': '' @ exn_str e) w)
                 image_path)"

section \<open>The messaging pipeline: \<^verbatim>\<open>preprocess_messaging_app_screenshot\<close>\<close>

text \<open>Step 3: the two binarizations of the enhanced image and their combination.\<close>

definition binarize_combined :: "env \<Rightarrow> image \<Rightarrow> exn + image" where
  "binarize_combined env enhanced =
     (let binary1 = threshold enhanced (otsu env enhanced) 255 THRESH_BINARY;
          binary2 = adaptiveThreshold env enhanced 255 11 2
      in bitwise_or binary1 binary2)"

text \<open>Step 5: the long horizontal and vertical runs, subtracted from the image.\<close>

definition remove_ui_lines :: "image \<Rightarrow> exn + image" where
  "remove_ui_lines processed =
     (let horizontal_kernel = getStructuringElement_RECT (25, 1);
          vertical_kernel = getStructuringElement_RECT (1, 25);
          horizontal_lines = morphologyEx processed MORPH_OPEN horizontal_kernel;
          vertical_lines = morphologyEx processed MORPH_OPEN vertical_kernel
      in bind_e (subtract processed horizontal_lines) (\<lambda>processed.
           subtract processed vertical_lines))"

definition messaging_image :: "env \<Rightarrow> bgr_image \<Rightarrow> exn + image" where
  "messaging_image env img =
     bind_e (cvtColor env img) (\<lambda>gray.
     bind_e (fastNlMeansDenoising env gray 10 7 21) (\<lambda>denoised.
     bind_e (clahe_apply env 3 (8, 8) denoised) (\<lambda>enhanced.
     bind_e (binarize_combined env enhanced) (\<lambda>combined.
       let kernel_large = ones 5 5;
           kernel_small = ones 2 2;
           opened = morphologyEx combined MORPH_OPEN kernel_small;
           processed = morphologyEx opened MORPH_CLOSE kernel_large
       in remove_ui_lines processed))))"

definition preprocess_messaging_app_screenshot ::
  "env \<Rightarrow> string \<Rightarrow> world \<Rightarrow> (exn + string) \<times> world" where
  "preprocess_messaging_app_screenshot env image_path =
     try_except
       (\<lambda>w. case imread env w image_path of
               None \<Rightarrow> (Inr image_path, w)
             | Some img \<Rightarrow>
                 (case messaging_image env img of
                    Inl e \<Rightarrow> (Inl e, w)
                  | Inr processed \<Rightarrow>
                      (let base_name = stem image_path;
                           temp_path = ''temp_messaging_processed_'' @ base_name @ ''_ocr.png''
                       in case imwrite env temp_path processed w of
                            (Inl e, w') \<Rightarrow> (Inl e, w')
                          | (Inr _, w') \<Rightarrow> (Inr temp_path, w'))))
       (\<lambda>e w. then_return
                 (py_print env
                    (''Messaging app preprocessing failed for '' @ image_path @ '': '' @ exn_str e) w)
                 image_path)"

section \<open>The candidate generator: \<^verbatim>\<open>preprocess_with_multiple_methods\<close>\<close>

definition conservative_image :: "env \<Rightarrow> bgr_image \<Rightarrow> exn + image" where
  "conservative_image env img =
     bind_e (cvtColor env img) (\<lambda>gray. Inr (threshold gray 127 255 THRESH_BINARY))"

definition extreme_image :: "env \<Rightarrow> bgr_image \<Rightarrow> exn + image" where
  "extreme_image env img =
     bind_e (cvtColor env img) (\<lambda>gray.
     bind_e (convertScaleAbs env gray (5 / 2) 50) (\<lambda>enhanced.
     bind_e (bilateralFilter env enhanced 15 80 80) (\<lambda>denoised.
       let binary = threshold denoised (otsu env denoised) 255 THRESH_BINARY;
           kernel = ones 7 7
       in Inr (morphologyEx binary MORPH_CLOSE kernel))))"

type_synonym candidates = "(string \<times> string) list"

text \<open>Method 3 and method 4, each under its own \<^verbatim>\<open>if img is not None\<close>.\<close>

definition method3 ::
  "env \<Rightarrow> string \<Rightarrow> bgr_image option \<Rightarrow> candidates \<Rightarrow> world \<Rightarrow> (exn + candidates) \<times> world" where
  "method3 env base_name img methods w =
     (case img of
        None \<Rightarrow> (Inr methods, w)
      | Some im \<Rightarrow>
          (case conservative_image env im of
             Inl e \<Rightarrow> (Inl e, w)
           | Inr conservative \<Rightarrow>
               (let temp3 = ''temp_'' @ base_name @ ''_conservative.png''
                in case imwrite env temp3 conservative w of
                     (Inl e, w') \<Rightarrow> (Inl e, w')
                   | (Inr _, w') \<Rightarrow> (Inr (methods @ [(''conservative'', temp3)]), w'))))"

definition method4 ::
  "env \<Rightarrow> string \<Rightarrow> bgr_image option \<Rightarrow> candidates \<Rightarrow> world \<Rightarrow> (exn + candidates) \<times> world" where
  "method4 env base_name img methods w =
     (case img of
        None \<Rightarrow> (Inr methods, w)
      | Some im \<Rightarrow>
          (case extreme_image env im of
             Inl e \<Rightarrow> (Inl e, w)
           | Inr extreme \<Rightarrow>
               (let temp4 = ''temp_'' @ base_name @ ''_extreme.png''
                in case imwrite env temp4 extreme w of
                     (Inl e, w') \<Rightarrow> (Inl e, w')
                   | (Inr _, w') \<Rightarrow> (Inr (methods @ [(''extreme_enhancement'', temp4)]), w'))))"

text \<open>The body of the \<^verbatim>\<open>try\<close>: the four methods in sequence, a raise ending the body.\<close>

definition multiple_methods_body ::
  "env \<Rightarrow> string \<Rightarrow> world \<Rightarrow> (exn + candidates) \<times> world" where
  "multiple_methods_body env image_path w =
     (let base_name = stem image_path
      in case preprocess_image_for_ocr env image_path w of
           (Inl e, w1) \<Rightarrow> (Inl e, w1)
         | (Inr temp1, w1) \<Rightarrow>
             (case preprocess_messaging_app_screenshot env image_path w1 of
                (Inl e, w2) \<Rightarrow> (Inl e, w2)
              | (Inr temp2, w2) \<Rightarrow>
                  (let img = imread env w2 image_path
                   in case method3 env base_name img
                             [(''military_grade'', temp1), (''messaging_specialized'', temp2)] w2 of
                        (Inl e, w3) \<Rightarrow> (Inl e, w3)
                      | (Inr methods, w3) \<Rightarrow> method4 env base_name img methods w3)))"

definition preprocess_with_multiple_methods ::
  "env \<Rightarrow> string \<Rightarrow> world \<Rightarrow> (exn + candidates) \<times> world" where
  "preprocess_with_multiple_methods env image_path =
     try_except (multiple_methods_body env image_path)
       (\<lambda>e w. then_return
                 (py_print env
                    (''Multi-method preprocessing failed for '' @ image_path @ '': '' @ exn_str e) w)
                 [(''original'', image_path)])"

section \<open>Contrast enhancement with PIL: \<^verbatim>\<open>enhance_image_contrast\<close>\<close>

text \<open>
  \<^verbatim>\<open>Image.open\<close> raises for a missing or unidentifiable file; the mode of the opened image
  is \<^verbatim>\<open>'L'\<close> for a single-channel file.
\<close>

datatype pil_image = PilColour bgr_image | PilL image

definition Image_open :: "env \<Rightarrow> world \<Rightarrow> string \<Rightarrow> exn + pil_image" where
  "Image_open env w p =
     (case fs w (resolve env p) of
        None \<Rightarrow> Inl (OSError ''No such file or directory'')
      | Some Junk \<Rightarrow> Inl (OSError ''cannot identify image file'')
      | Some (Colour im) \<Rightarrow> Inr (PilColour im)
      | Some (Gray g) \<Rightarrow> Inr (PilL g))"

definition enhance_image_contrast :: "env \<Rightarrow> string \<Rightarrow> world \<Rightarrow> (exn + string) \<times> world" where
  "enhance_image_contrast env image_path =
     try_except
       (\<lambda>w. case bind_e (Image_open env w image_path) (\<lambda>img.
                    bind_e (case img of PilL g \<Rightarrow> Inr g | PilColour im \<Rightarrow> pil_convert_L env im) (\<lambda>img.
                      contrast_enhance env img 2)) of
               Inl e \<Rightarrow> (Inl e, w)
             | Inr enhanced \<Rightarrow>
                 (let base_name = stem image_path;
                      temp_path = ''temp_enhanced_'' @ base_name @ ''.png''
                  in case save_error env temp_path of
                       Some e \<Rightarrow> (Inl e, w)
                     | None \<Rightarrow>
                         (Inr temp_path,
                          w\<lparr>fs := (fs w)(resolve env temp_path \<mapsto> Gray enhanced)\<rparr>)))
       (\<lambda>e w. then_return
                 (py_print env
                    (''Contrast enhancement failed for '' @ image_path @ '': '' @ exn_str e) w)
                 image_path)"

section \<open>Names and predicates used in the statements\<close>

text \<open>The f-strings of the source that name the temporary artifacts, as functions of the path.\<close>

definition temp_military :: "string \<Rightarrow> string" where
  "temp_military image_path = ''temp_military_processed_'' @ stem image_path @ ''_ocr.png''"

definition temp_messaging :: "string \<Rightarrow> string" where
  "temp_messaging image_path = ''temp_messaging_processed_'' @ stem image_path @ ''_ocr.png''"

definition temp_conservative :: "string \<Rightarrow> string" where
  "temp_conservative image_path = ''temp_'' @ stem image_path @ ''_conservative.png''"

definition temp_extreme :: "string \<Rightarrow> string" where
  "temp_extreme image_path = ''temp_'' @ stem image_path @ ''_extreme.png''"

definition temp_enhanced :: "string \<Rightarrow> string" where
  "temp_enhanced image_path = ''temp_enhanced_'' @ stem image_path @ ''.png''"

text \<open>Every file that differs between two worlds is, in the later one, a two-level raster.\<close>

definition binary_writes :: "world \<Rightarrow> world \<Rightarrow> bool" where
  "binary_writes w w' = (\<forall>q. fs w' q = fs w q \<or> (\<exists>out. fs w' q = Some (Gray out) \<and> binary out))"

text \<open>A computation raised.\<close>

definition raised :: "(exn + 'a) \<times> world \<Rightarrow> bool" where
  "raised rw = (case fst rw of Inl e \<Rightarrow> True | Inr x \<Rightarrow> False)"

text \<open>
  Method 1 meets no internal failure: the image loads, the pipeline completes with
  content, and \<^verbatim>\<open>cv2.imwrite\<close> does not raise. Likewise for method 2.
\<close>

definition military_succeeds :: "env \<Rightarrow> world \<Rightarrow> string \<Rightarrow> bool" where
  "military_succeeds env w image_path =
     (case imread env w image_path of
        None \<Rightarrow> False
      | Some img \<Rightarrow>
          (case military_image env img of
             Inr (Some processed) \<Rightarrow>
               (case imwrite_outcome env (temp_military image_path) processed of
                  Inl e \<Rightarrow> False | Inr b \<Rightarrow> True)
           | _ \<Rightarrow> False))"

definition messaging_succeeds :: "env \<Rightarrow> world \<Rightarrow> string \<Rightarrow> bool" where
  "messaging_succeeds env w image_path =
     (case imread env w image_path of
        None \<Rightarrow> False
      | Some img \<Rightarrow>
          (case messaging_image env img of
             Inr processed \<Rightarrow>
               (case imwrite_outcome env (temp_messaging image_path) processed of
                  Inl e \<Rightarrow> False | Inr b \<Rightarrow> True)
           | Inl e \<Rightarrow> False))"

text \<open>Method 3, and method 4, raises on the image read for them (\<open>None\<close>: not loaded).\<close>

definition method3_raises :: "env \<Rightarrow> string \<Rightarrow> bgr_image option \<Rightarrow> bool" where
  "method3_raises env image_path img =
     (case img of
        None \<Rightarrow> False
      | Some im \<Rightarrow>
          (case conservative_image env im of
             Inl e \<Rightarrow> True
           | Inr conservative \<Rightarrow>
               (case imwrite_outcome env (temp_conservative image_path) conservative of
                  Inl e \<Rightarrow> True | Inr b \<Rightarrow> False)))"

definition method4_raises :: "env \<Rightarrow> string \<Rightarrow> bgr_image option \<Rightarrow> bool" where
  "method4_raises env image_path img =
     (case img of
        None \<Rightarrow> False
      | Some im \<Rightarrow>
          (case extreme_image env im of
             Inl e \<Rightarrow> True
           | Inr extreme \<Rightarrow>
               (case imwrite_outcome env (temp_extreme image_path) extreme of
                  Inl e \<Rightarrow> True | Inr b \<Rightarrow> False)))"

section \<open>Concrete environments and worlds\<close>

text \<open>
  A small environment in which every library call succeeds: colour conversion takes the
  green channel, the filters are the identity, Otsu's level is 127, no contour is found,
  a contour's area is its number of points and its polygon covers exactly its points;
  every path reaches the file of its own name, no deletion is refused and \<^verbatim>\<open>print\<close> works.
\<close>

definition env0 :: env where
  "env0 = \<lparr>cvtColor = (\<lambda>img. Inr (map (map (\<lambda>(b, g, r). g)) img)),
           minAreaRect = (\<lambda>coords. Inr 0),
           getRotationMatrix2D = (\<lambda>center angle scale. Inr [[1, 0, 0], [0, 1, 0]]),
           warpAffine = (\<lambda>src M dsize. Inr src),
           otsu = (\<lambda>src. 127),
           findContours = (\<lambda>src. Inr []),
           contourArea = (\<lambda>c. Inr (real (length c))),
           polygon = (\<lambda>c y x. (int x, int y) \<in> set c),
           fastNlMeansDenoising = (\<lambda>src h t s. Inr src),
           clahe_apply = (\<lambda>clip tiles src. Inr src),
           gaussian_mean = (\<lambda>blockSize src y x. src ! y ! x),
           convertScaleAbs = (\<lambda>src alpha beta. Inr src),
           bilateralFilter = (\<lambda>src d sc ss. Inr src),
           imwrite_outcome = (\<lambda>p img. Inr True),
           pil_convert_L = (\<lambda>img. Inr (map (map (\<lambda>(b, g, r). g)) img)),
           contrast_enhance = (\<lambda>src factor. Inr src),
           save_error = (\<lambda>p. None),
           resolve = (\<lambda>p. p),
           remove_error = (\<lambda>p. None),
           print_error = (\<lambda>line. None)\<rparr>"

text \<open>The same environment with a bilateral filter and a \<^verbatim>\<open>print\<close> of the caller's choice.\<close>

definition env_variant ::
  "(image \<Rightarrow> nat \<Rightarrow> real \<Rightarrow> real \<Rightarrow> exn + image) \<Rightarrow> (string \<Rightarrow> exn option) \<Rightarrow> env" where
  "env_variant bf pe = env0\<lparr>bilateralFilter := bf, print_error := pe\<rparr>"

definition identity_filter :: "image \<Rightarrow> nat \<Rightarrow> real \<Rightarrow> real \<Rightarrow> exn + image" where
  "identity_filter src d sc ss = Inr src"

definition print_works :: "string \<Rightarrow> exn option" where
  "print_works line = None"

text \<open>Standard output is closed: every \<^verbatim>\<open>print\<close> raises \<^verbatim>\<open>ValueError\<close>.\<close>

definition closed_stdout :: "string \<Rightarrow> exn option" where
  "closed_stdout line = Some (ValueError ''I/O operation on closed file'')"

text \<open>The same environment where \<^verbatim>\<open>./a.png\<close> is another spelling of \<^verbatim>\<open>a.png\<close>.\<close>

definition env_alias :: env where
  "env_alias = env0\<lparr>resolve := (\<lambda>p. if p = ''./a.png'' then ''a.png'' else p)\<rparr>"

text \<open>A bilateral filter that runs out of memory (only method 4 calls it).\<close>

definition out_of_memory :: "image \<Rightarrow> nat \<Rightarrow> real \<Rightarrow> real \<Rightarrow> exn + image" where
  "out_of_memory src d sc ss = Inl (CvError ''Insufficient memory'')"

text \<open>The same environment where every deletion is refused and standard output is closed.\<close>

definition env_locked :: env where
  "env_locked = env0\<lparr>remove_error := (\<lambda>p. Some (OSError ''Permission denied'')),
                      print_error := closed_stdout\<rparr>"

text \<open>A world with a leftover artifact, an unreadable source and a sibling temp file.\<close>

definition world0 :: world where
  "world0 = \<lparr>fs = [''temp_a_ocr.png'' \<mapsto> Gray [[0]], ''a.png'' \<mapsto> Junk,
                   ''temp_a_method1.png'' \<mapsto> Junk],
             stdout = []\<rparr>"

text \<open>A world whose only file is a one-pixel image: black in \<open>world_black\<close>, white in \<open>world_white\<close>.\<close>

definition world_black :: world where
  "world_black = \<lparr>fs = [''a.png'' \<mapsto> Colour [[(0, 0, 0)]]], stdout = []\<rparr>"

definition world_white :: world where
  "world_white = \<lparr>fs = [''a.png'' \<mapsto> Colour [[(255, 255, 255)]]], stdout = []\<rparr>"

text \<open>
  A 27 by 27 image: the first row and the first column are white, the pixel at row 2,
  column 2 is white, everything else is black.
\<close>

definition ui_sample :: image where
  "ui_sample =
     map (\<lambda>y. map (\<lambda>x. if y = 0 \<or> x = 0 \<or> (y = 2 \<and> x = 2) then 255 else 0) [0..<27]) [0..<27]"

section \<open>Paths: the parts of a path and the naming templates\<close>

lemma rfind_ge: "-1 \<le> rfind p c"
  by (induction p) (auto simp: Let_def)

lemma rfind_lt: "rfind p c < int (length p)"
  by (induction p) (auto simp: Let_def)

lemma rfind_neg_iff: "rfind p c < 0 \<longleftrightarrow> c \<notin> set p"
  by (induction p) (auto simp: Let_def)

lemma rfind_hit: "0 \<le> rfind p c \<Longrightarrow> p ! nat (rfind p c) = c"
proof (induction p)
  case Nil
  then show ?case by simp
next
  case (Cons x xs)
  show ?case
  proof (cases "0 \<le> rfind xs c")
    case True
    then have "nat (rfind xs c + 1) = Suc (nat (rfind xs c))" by simp
    with True Cons.IH show ?thesis by (simp add: Let_def)
  next
    case False
    with Cons.prems show ?thesis by (simp add: Let_def split: if_splits)
  qed
qed

lemma rfind_last: "c \<notin> set (drop (nat (rfind p c + 1)) p)"
proof (induction p)
  case Nil
  then show ?case by simp
next
  case (Cons x xs)
  show ?case
  proof (cases "0 \<le> rfind xs c")
    case True
    then have "nat (rfind xs c + 1 + 1) = Suc (nat (rfind xs c + 1))" by simp
    with True Cons.IH show ?thesis by (simp add: Let_def)
  next
    case False
    then have "c \<notin> set xs" using rfind_neg_iff [of xs c] by simp
    with False show ?thesis by (simp add: Let_def)
  qed
qed

lemma basename_no_sep: "CHR ''/'' \<notin> set (basename p)"
  unfolding basename_def by (rule rfind_last)

lemma basename_split:
  "\<exists>d. p = d @ basename p \<and> (d = [] \<or> last d = CHR ''/'')"
proof (cases "0 \<le> rfind p CHR ''/''")
  case True
  let ?i = "nat (rfind p CHR ''/'')"
  have lt: "?i < length p" using rfind_lt [of p "CHR ''/''"] True by simp
  have eq: "nat (rfind p CHR ''/'' + 1) = Suc ?i" using True by simp
  have "take (Suc ?i) p = take ?i p @ [p ! ?i]"
    using lt by (rule take_Suc_conv_app_nth)
  then have "last (take (Suc ?i) p) = CHR ''/''"
    using rfind_hit [OF True] by simp
  moreover have "p = take (Suc ?i) p @ basename p"
    by (simp add: basename_def eq)
  ultimately show ?thesis by blast
next
  case False
  then have "rfind p CHR ''/'' = -1" using rfind_ge [of p "CHR ''/''"] by simp
  then have "basename p = p" by (simp add: basename_def)
  then show ?thesis by simp
qed

lemma splitext_parts:
  "splitext b = (s, e) \<Longrightarrow>
     b = s @ e \<and> (e = [] \<or> (hd e = CHR ''.'' \<and> CHR ''.'' \<notin> set (tl e)))"
proof -
  assume h: "splitext b = (s, e)"
  show ?thesis
  proof (cases "e = []")
    case True
    with h show ?thesis
      by (auto simp: splitext_def Let_def split: if_splits)
  next
    case False
    let ?d = "nat (rfind b CHR ''.'')"
    from h False have se: "s = take ?d b" "e = drop ?d b"
      by (auto simp: splitext_def Let_def split: if_splits)
    from False se have lt: "?d < length b" by simp
    have pos: "0 \<le> rfind b CHR ''.''"
    proof (rule ccontr)
      assume "\<not> 0 \<le> rfind b CHR ''.''"
      then have "rfind b CHR ''.'' = -1" using rfind_ge [of b "CHR ''.''"] by simp
      with h False show False by (simp add: splitext_def Let_def)
    qed
    have "hd e = b ! ?d" using lt se by (simp add: hd_drop_conv_nth)
    then have hd: "hd e = CHR ''.''" using rfind_hit [OF pos] by simp
    have "tl e = drop (Suc ?d) b" using se by (simp add: drop_Suc tl_drop)
    moreover have "nat (rfind b CHR ''.'' + 1) = Suc ?d" using pos by simp
    ultimately have "CHR ''.'' \<notin> set (tl e)"
      using rfind_last [of "CHR ''.''" b] by simp
    with hd se show ?thesis by simp
  qed
qed

lemma stem_parts:
  "\<exists>d e. p = d @ stem p @ e \<and> (d = [] \<or> last d = CHR ''/'') \<and> CHR ''/'' \<notin> set (stem p) \<and>
     (e = [] \<or> (hd e = CHR ''.'' \<and> CHR ''.'' \<notin> set (tl e)))"
proof -
  obtain d where d: "p = d @ basename p" "d = [] \<or> last d = CHR ''/''"
    using basename_split by blast
  obtain s e where se: "splitext (basename p) = (s, e)" by (cases "splitext (basename p)")
  then have s: "stem p = s" by (simp add: stem_def)
  from splitext_parts [OF se]
  have parts: "basename p = s @ e" "e = [] \<or> (hd e = CHR ''.'' \<and> CHR ''.'' \<notin> set (tl e))"
    by simp_all
  have "CHR ''/'' \<notin> set s" using basename_no_sep [of p] parts(1) by simp
  moreover have "p = d @ stem p @ e" using d(1) parts(1) s by simp
  ultimately show ?thesis using d(2) parts(2) s by blast
qed

text \<open>
  A name built from the stem of a path, with a prefix and a suffix free of separators
  and a suffix that holds a dot, is never that path.
\<close>

lemma template_neq:
  assumes px: "pre \<noteq> []" "CHR ''/'' \<notin> set pre"
    and sx: "CHR ''/'' \<notin> set suf" "CHR ''.'' \<in> set suf"
  shows "pre @ stem p @ suf \<noteq> p"
proof
  assume eq: "pre @ stem p @ suf = p"
  obtain d e where de: "p = d @ stem p @ e" "d = [] \<or> last d = CHR ''/''"
      "CHR ''/'' \<notin> set (stem p)" "e = [] \<or> (hd e = CHR ''.'' \<and> CHR ''.'' \<notin> set (tl e))"
    using stem_parts by blast
  have nosep: "CHR ''/'' \<notin> set p"
    using px(2) sx(1) de(3) by (subst eq [symmetric]) simp
  have "d = []"
  proof (rule ccontr)
    assume ne: "d \<noteq> []"
    with de(2) have "CHR ''/'' \<in> set d" using last_in_set [OF ne] by simp
    then have "CHR ''/'' \<in> set p" by (subst de(1)) simp
    with nosep show False by simp
  qed
  with de(1) eq have eq2: "pre @ stem p @ suf = stem p @ e" by simp
  have "length (pre @ stem p @ suf) = length (stem p @ e)"
    using eq2 by (rule arg_cong)
  then have len: "length e = length pre + length suf" by simp
  have "drop (length pre + length (stem p)) (pre @ stem p @ suf) = suf" by simp
  then have "drop (length pre + length (stem p)) (stem p @ e) = suf" using eq2 by simp
  then have suf: "drop (length pre) e = suf" by simp
  have "length pre > 0" using px(1) by simp
  then obtain k where k: "length pre = Suc k" by (cases "length pre") auto
  have "e \<noteq> []" using len k by auto
  have "set (drop (Suc k) e) \<subseteq> set (tl e)"
    by (simp add: drop_Suc set_drop_subset)
  with suf k sx(2) have "CHR ''.'' \<in> set (tl e)" by auto
  with de(4) \<open>e \<noteq> []\<close> show False by simp
qed

section \<open>Cleanup removes only files its four names reach\<close>

lemma os_remove_frame:
  "os_remove env p w = (r, w') \<Longrightarrow>
     stdout w' = stdout w \<and>
     (\<forall>k. fs w' k = fs w k \<or> (k = resolve env p \<and> fs w' k = None \<and> r = Inr ()))"
  by (auto simp: os_remove_def split: if_splits option.splits)

lemma remove_method_files_frame:
  "remove_method_files env files w = (r, w') \<Longrightarrow>
     (\<forall>k. fs w' k = fs w k \<or> (k \<in> resolve env ` set files \<and> fs w' k = None))"
proof (induction files arbitrary: w)
  case Nil
  then show ?case by simp
next
  case (Cons f rest)
  show ?case
  proof (cases "exists env w f")
    case False
    with Cons.prems have "remove_method_files env rest w = (r, w')" by simp
    from Cons.IH [OF this] show ?thesis by auto
  next
    case True
    obtain r1 w1 where rm: "os_remove env f w = (r1, w1)"
      by (cases "os_remove env f w")
    note fr = os_remove_frame [OF rm]
    show ?thesis
    proof (cases r1)
      case (Inl e)
      with True rm Cons.prems have "w' = w1" by simp
      with fr show ?thesis by auto
    next
      case (Inr u)
      with True rm Cons.prems have run: "remove_method_files env rest w1 = (r, w')" by simp
      show ?thesis
      proof (intro allI)
        fix k
        from Cons.IH [OF run]
        have "fs w' k = fs w1 k \<or> (k \<in> resolve env ` set rest \<and> fs w' k = None)" by blast
        moreover from fr have "fs w1 k = fs w k \<or> (k = resolve env f \<and> fs w1 k = None)" by blast
        ultimately show "fs w' k = fs w k \<or> (k \<in> resolve env ` set (f # rest) \<and> fs w' k = None)"
          by auto
      qed
    qed
  qed
qed

lemma cleanup_body_frame:
  assumes h: "cleanup_body env temp_path original_path w = (r, w')"
  shows "fs w' k = fs w k \<or>
        (fs w' k = None \<and> temp_path \<noteq> original_path \<and> exists env w temp_path \<and>
         k \<in> resolve env ` set (temp_path # method_files original_path))"
proof (cases "temp_path \<noteq> original_path \<and> exists env w temp_path")
  case False
  with h show ?thesis
    by (auto simp: cleanup_body_def)
next
  case True
  obtain r1 w1 where rm: "os_remove env temp_path w = (r1, w1)"
    by (cases "os_remove env temp_path w")
  from os_remove_frame [OF rm]
  have fr: "fs w1 k = fs w k \<or> (k = resolve env temp_path \<and> fs w1 k = None)" by blast
  show ?thesis
  proof (cases r1)
    case (Inl e)
    with True rm h have "w' = w1" by (simp add: cleanup_body_def)
    with fr True show ?thesis by auto
  next
    case (Inr u)
    with True rm h
    have "remove_method_files env (method_files original_path) w1 = (r, w')"
      by (simp add: cleanup_body_def)
    from remove_method_files_frame [OF this]
    have "fs w' k = fs w1 k \<or> (k \<in> resolve env ` set (method_files original_path) \<and> fs w' k = None)"
      by blast
    with fr True show ?thesis by auto
  qed
qed

lemma cleanup_body_same_path:
  "cleanup_body env original_path original_path w = (Inr (), w)"
  by (simp add: cleanup_body_def)

lemma cleanup_temp_files_result:
  assumes "cleanup_temp_files env temp_path original_path w = (r, w')"
  shows "\<exists>r0 w0. cleanup_body env temp_path original_path w = (r0, w0) \<and> fs w' = fs w0 \<and>
     (case r0 of
        Inr u \<Rightarrow> r = Inr ()
      | Inl e0 \<Rightarrow>
          (case print_error env
                  (''Warning: Could not clean up temp file '' @ temp_path @ '': '' @ exn_str e0) of
             None \<Rightarrow> r = Inr ()
           | Some e \<Rightarrow> r = Inl e))"
  using assms
  by (cases "cleanup_body env temp_path original_path w")
     (auto simp: cleanup_temp_files_def try_except_def py_print_def split: sum.splits option.splits)

lemma notin_three: "a \<noteq> x \<Longrightarrow> b \<noteq> x \<Longrightarrow> c \<noteq> x \<Longrightarrow> x \<notin> set [a, b, c]"
  by auto

lemma original_not_method_file: "original_path \<notin> set (method_files original_path)"
proof -
  have a: "''temp_'' @ stem original_path @ ''_method1.png'' \<noteq> original_path"
    by (rule template_neq) simp_all
  have b: "''temp_'' @ stem original_path @ ''_method2.png'' \<noteq> original_path"
    by (rule template_neq) simp_all
  have c: "''temp_'' @ stem original_path @ ''_method3.png'' \<noteq> original_path"
    by (rule template_neq) simp_all
  show ?thesis
    unfolding method_files_def Let_def by (rule notin_three [OF a b c])
qed

text \<open>
  C9, as the code has it. \<^verbatim>\<open>cleanup_temp_files\<close> raises only when its body raised and the
  \<^verbatim>\<open>print\<close> of its handler raises too; when \<^verbatim>\<open>print\<close> works it always returns \<^verbatim>\<open>None\<close>. A
  file it changes is deleted, is reached by \<open>temp_path\<close> or by one of the three names
  \<^verbatim>\<open>temp_{stem}_method1.png\<close>, \<^verbatim>\<open>temp_{stem}_method2.png\<close>, \<^verbatim>\<open>temp_{stem}_method3.png\<close>, and
  goes only when \<open>temp_path\<close> differs from \<open>original_path\<close> as a string and reaches an
  existing file. The file \<open>original_path\<close> reaches is kept whenever none of those four
  names reaches it: when the two paths are the same string nothing is deleted, and
  where distinct spellings reach distinct files the original is never deleted, since no
  sibling name is the original path.
\<close>

theorem cleanup_temp_files_frame:
  assumes "cleanup_temp_files env temp_path original_path w = (r, w')"
  shows "(r = Inr () \<or>
      (\<exists>e0 e. fst (cleanup_body env temp_path original_path w) = Inl e0 \<and>
         print_error env
           (''Warning: Could not clean up temp file '' @ temp_path @ '': '' @ exn_str e0) = Some e \<and>
         r = Inl e)) \<and>
     ((\<forall>line. print_error env line = None) \<longrightarrow> r = Inr ()) \<and>
     (\<forall>k. fs w' k \<noteq> fs w k \<longrightarrow>
        fs w' k = None \<and> k \<in> resolve env ` set (temp_path # method_files original_path) \<and>
        temp_path \<noteq> original_path \<and> exists env w temp_path) \<and>
     (resolve env original_path \<notin> resolve env ` set (temp_path # method_files original_path) \<longrightarrow>
        fs w' (resolve env original_path) = fs w (resolve env original_path)) \<and>
     (temp_path = original_path \<longrightarrow> fs w' = fs w) \<and>
     (inj (resolve env) \<longrightarrow> fs w' (resolve env original_path) = fs w (resolve env original_path)) \<and>
     original_path \<notin> set (method_files original_path)"
proof -
  from cleanup_temp_files_result [OF assms] obtain r0 w0 where
    b: "cleanup_body env temp_path original_path w = (r0, w0)" and eq: "fs w' = fs w0" and
    res: "case r0 of
        Inr u \<Rightarrow> r = Inr ()
      | Inl e0 \<Rightarrow>
          (case print_error env
                  (''Warning: Could not clean up temp file '' @ temp_path @ '': '' @ exn_str e0) of
             None \<Rightarrow> r = Inr ()
           | Some e \<Rightarrow> r = Inl e)"
    by blast
  note fr = cleanup_body_frame [OF b]
  have c1: "r = Inr () \<or>
      (\<exists>e0 e. fst (cleanup_body env temp_path original_path w) = Inl e0 \<and>
         print_error env
           (''Warning: Could not clean up temp file '' @ temp_path @ '': '' @ exn_str e0) = Some e \<and>
         r = Inl e)"
    using res b by (auto split: sum.splits option.splits)
  have c2: "(\<forall>line. print_error env line = None) \<longrightarrow> r = Inr ()"
    using res by (auto split: sum.splits option.splits)
  have c3: "fs w' k \<noteq> fs w k \<longrightarrow>
        fs w' k = None \<and> k \<in> resolve env ` set (temp_path # method_files original_path) \<and>
        temp_path \<noteq> original_path \<and> exists env w temp_path" for k
    using fr [of k] eq by auto
  have c4: "resolve env original_path \<notin> resolve env ` set (temp_path # method_files original_path) \<longrightarrow>
        fs w' (resolve env original_path) = fs w (resolve env original_path)"
    using c3 [of "resolve env original_path"] by blast
  have c5: "temp_path = original_path \<longrightarrow> fs w' = fs w"
    using b eq by (auto simp: cleanup_body_same_path)
  have c6: "inj (resolve env) \<longrightarrow> fs w' (resolve env original_path) = fs w (resolve env original_path)"
  proof
    assume i: "inj (resolve env)"
    show "fs w' (resolve env original_path) = fs w (resolve env original_path)"
    proof (rule ccontr)
      assume n: "fs w' (resolve env original_path) \<noteq> fs w (resolve env original_path)"
      with c3 [of "resolve env original_path"]
      have m: "resolve env original_path \<in> resolve env ` set (temp_path # method_files original_path)"
        and d: "temp_path \<noteq> original_path" by blast+
      from m i have "original_path \<in> set (temp_path # method_files original_path)"
        by (auto dest: injD)
      with d original_not_method_file [of original_path] show False by auto
    qed
  qed
  from c1 c2 c3 c4 c5 c6 original_not_method_file [of original_path] show ?thesis by blast
qed

lemma stem_a: "stem ''a.png'' = ''a''"
  by (simp add: stem_def splitext_def basename_def Let_def)

theorem cleanup_temp_files_frame_witness:
  "cleanup_temp_files env0 ''temp_a_ocr.png'' ''a.png'' world0
     = (Inr (), world0\<lparr>fs := [''a.png'' \<mapsto> Junk]\<rparr>) \<and>
   fs (world0\<lparr>fs := [''a.png'' \<mapsto> Junk]\<rparr>) ''temp_a_ocr.png'' \<noteq> fs world0 ''temp_a_ocr.png'' \<and>
   ''temp_a_ocr.png'' \<noteq> ''a.png'' \<and> exists env0 world0 ''temp_a_ocr.png'' \<and> inj (resolve env0) \<and>
   fs (world0\<lparr>fs := [''a.png'' \<mapsto> Junk]\<rparr>) (resolve env0 ''a.png'') = fs world0 (resolve env0 ''a.png'')"
proof -
  have run: "cleanup_temp_files env0 ''temp_a_ocr.png'' ''a.png'' world0
     = (Inr (), world0\<lparr>fs := [''a.png'' \<mapsto> Junk]\<rparr>)"
    by (simp add: cleanup_temp_files_def try_except_def cleanup_body_def os_remove_def exists_def
        method_files_def stem_a world0_def env0_def fun_eq_iff)
  have i: "inj (resolve env0)" by (simp add: env0_def inj_def)
  note t = cleanup_temp_files_frame [OF run]
  have k: "fs (world0\<lparr>fs := [''a.png'' \<mapsto> Junk]\<rparr>) (resolve env0 ''a.png'') = fs world0 (resolve env0 ''a.png'')"
    by (rule t [THEN conjunct2, THEN conjunct2, THEN conjunct2, THEN conjunct2, THEN conjunct2,
          THEN conjunct1, THEN mp, OF i])
  have d: "fs (world0\<lparr>fs := [''a.png'' \<mapsto> Junk]\<rparr>) ''temp_a_ocr.png'' \<noteq> fs world0 ''temp_a_ocr.png''"
    "''temp_a_ocr.png'' \<noteq> ''a.png''" "exists env0 world0 ''temp_a_ocr.png''"
    by (simp_all add: world0_def exists_def env0_def)
  from run d i k show ?thesis by (intro conjI)
qed

text \<open>
  The claim as stated fails twice. Called with \<^verbatim>\<open>./a.png\<close> as the temp path and
  \<^verbatim>\<open>a.png\<close> as the original, two spellings of one file, the string guard passes and the
  original is deleted. And with deletions refused and standard output closed, the
  exception of the handler's \<^verbatim>\<open>print\<close> leaves the function.
\<close>

theorem cleanup_temp_files_counterexample:
  "''./a.png'' \<noteq> ''a.png'' \<and>
   resolve env_alias ''./a.png'' = resolve env_alias ''a.png'' \<and>
   fs world_black (resolve env_alias ''a.png'') = Some (Colour [[(0, 0, 0)]]) \<and>
   fst (cleanup_temp_files env_alias ''./a.png'' ''a.png'' world_black) = Inr () \<and>
   fs (snd (cleanup_temp_files env_alias ''./a.png'' ''a.png'' world_black))
     (resolve env_alias ''a.png'') = None \<and>
   fst (cleanup_temp_files env_locked ''temp_a_ocr.png'' ''a.png'' world0) =
     Inl (ValueError ''I/O operation on closed file'')"
  by (simp add: cleanup_temp_files_def try_except_def cleanup_body_def os_remove_def exists_def
      method_files_def stem_a world0_def world_black_def env0_def env_alias_def env_locked_def
      py_print_def closed_stdout_def)

section \<open>Deskewing\<close>

text \<open>
  C3. On a loaded image whose grayscale conversion has a non-empty foreground point set,
  the raw angle of the minimum-area rectangle is mapped by the asymmetric branch (below
  \<open>-45\<close> the angle is \<open>-(90 + raw)\<close>, otherwise \<open>-raw\<close>); the image is rotated by
  that angle about the centre \<open>(w div 2, h div 2)\<close> only when its absolute value
  exceeds 1, and otherwise the grayscale image itself goes on to the later steps.
  Angles are real numbers.
\<close>

theorem deskew_asymmetric_branch:
  assumes "cvtColor env img = Inr gray"
    and "foreground_coords gray \<noteq> []"
    and "minAreaRect env (foreground_coords gray) = Inr raw"
  shows "deskew env img gray (foreground_coords gray) =
       (let angle = (if raw < -45 then - (90 + raw) else - raw)
        in if \<bar>angle\<bar> > 1
           then bind_e (getRotationMatrix2D env (snd (shape img) div 2, fst (shape img) div 2) angle 1)
                  (\<lambda>M. warpAffine env gray M (snd (shape img), fst (shape img)))
           else Inr gray) \<and>
     military_image env img =
       bind_e (deskew env img gray (foreground_coords gray)) (\<lambda>rotated.
         bind_e (post_deskew env rotated) (\<lambda>processed. Inr (Some processed)))"
  using assms by (simp add: deskew_def military_image_def bind_e_def Let_def split_beta)

theorem deskew_asymmetric_branch_witness:
  "cvtColor (env0\<lparr>minAreaRect := \<lambda>coords. Inr (- 60)\<rparr>) [[(0, 255, 0)]] = Inr [[255]] \<and>
   foreground_coords [[255]] \<noteq> [] \<and>
   minAreaRect (env0\<lparr>minAreaRect := \<lambda>coords. Inr (- 60)\<rparr>) (foreground_coords [[255]]) = Inr (- 60) \<and>
   deskew (env0\<lparr>minAreaRect := \<lambda>coords. Inr (- 60)\<rparr>) [[(0, 255, 0)]] [[255]] (foreground_coords [[255]])
     = Inr [[255]]"
proof -
  let ?env = "env0\<lparr>minAreaRect := \<lambda>coords. Inr (- 60)\<rparr>"
  have a: "cvtColor ?env [[(0, 255, 0)]] = Inr [[255]]" by (simp add: env0_def)
  have b: "foreground_coords [[255]] \<noteq> []" by (simp add: foreground_coords_def)
  have c: "minAreaRect ?env (foreground_coords [[255]]) = Inr (- 60)" by (simp add: env0_def)
  from deskew_asymmetric_branch [OF a b c] a b c show ?thesis
    by (simp add: env0_def bind_e_def shape_def)
qed

section \<open>Images without content\<close>

lemma foreground_coords_empty:
  "(length (foreground_coords gray) = 0) = (\<forall>row \<in> set gray. \<forall>v \<in> set row. \<not> v > 0)"
proof -
  have "(foreground_coords gray = []) =
        (\<forall>y < length gray. \<forall>x < length (gray ! y). \<not> gray ! y ! x > 0)"
    by (auto simp: foreground_coords_def filter_empty_conv)
  also have "\<dots> = (\<forall>row \<in> set gray. \<forall>v \<in> set row. \<not> v > 0)"
    by (metis in_set_conv_nth)
  finally show ?thesis by simp
qed

text \<open>
  C5, as the code has it. When the image loads and its grayscale conversion has no
  sample above zero, nothing is rotated and no file is written, whatever the rest of the
  environment does. If the \<^verbatim>\<open>print\<close> of the warning succeeds, the function returns the
  input path with the warning as the only new output line. If that \<^verbatim>\<open>print\<close> raises, the
  handler runs: it prints the failure message and returns the input path, and its
  exception leaves the function when its own \<^verbatim>\<open>print\<close> raises too.
\<close>

theorem no_content_returns_path:
  assumes "imread env w image_path = Some img"
    and "cvtColor env img = Inr gray"
    and "\<forall>row \<in> set gray. \<forall>v \<in> set row. \<not> v > 0"
  shows "fs (snd (preprocess_image_for_ocr env image_path w)) = fs w \<and>
     (print_error env (''Warning: No content found in image '' @ image_path) = None \<longrightarrow>
        preprocess_image_for_ocr env image_path w =
          (Inr image_path,
           w\<lparr>stdout := stdout w @ [''Warning: No content found in image '' @ image_path]\<rparr>)) \<and>
     (\<forall>e. print_error env (''Warning: No content found in image '' @ image_path) = Some e \<and>
          print_error env
            (''Military-grade preprocessing failed for '' @ image_path @ '': '' @ exn_str e) = None \<longrightarrow>
        preprocess_image_for_ocr env image_path w =
          (Inr image_path,
           w\<lparr>stdout := stdout w @
              [''Military-grade preprocessing failed for '' @ image_path @ '': '' @ exn_str e]\<rparr>)) \<and>
     (\<forall>e e'. print_error env (''Warning: No content found in image '' @ image_path) = Some e \<and>
          print_error env
            (''Military-grade preprocessing failed for '' @ image_path @ '': '' @ exn_str e) = Some e' \<longrightarrow>
        preprocess_image_for_ocr env image_path w = (Inl e', w))"
proof -
  from assms(3) have "length (foreground_coords gray) = 0"
    by (simp only: foreground_coords_empty)
  with assms(2) have "military_image env img = Inr None"
    by (simp add: military_image_def bind_e_def)
  with assms(1) show ?thesis
    by (auto simp: preprocess_image_for_ocr_def try_except_def py_print_def then_return_def
        split: option.splits)
qed

theorem no_content_returns_path_witness:
  "imread env0 world_black ''a.png'' = Some [[(0, 0, 0)]] \<and>
   cvtColor env0 [[(0, 0, 0)]] = Inr [[0]] \<and>
   print_error env0 (''Warning: No content found in image '' @ ''a.png'') = None \<and>
   preprocess_image_for_ocr env0 ''a.png'' world_black =
     (Inr ''a.png'',
      world_black\<lparr>stdout := stdout world_black @ [''Warning: No content found in image a.png'']\<rparr>)"
proof -
  have a: "imread env0 world_black ''a.png'' = Some [[(0, 0, 0)]]"
    by (simp add: imread_def world_black_def env0_def)
  have b: "cvtColor env0 [[(0, 0, 0)]] = Inr [[0]]" by (simp add: env0_def)
  have c: "\<forall>row \<in> set [[0 :: pixel]]. \<forall>v \<in> set row. \<not> v > 0" by simp
  have d: "print_error env0 (''Warning: No content found in image '' @ ''a.png'') = None"
    by (simp add: env0_def)
  note t = no_content_returns_path [OF a b c]
  have e: "preprocess_image_for_ocr env0 ''a.png'' world_black =
     (Inr ''a.png'',
      world_black\<lparr>stdout := stdout world_black @ [''Warning: No content found in image '' @ ''a.png'']\<rparr>)"
    by (rule t [THEN conjunct2, THEN conjunct1, THEN mp, OF d])
  from a b d e show ?thesis by simp
qed

text \<open>
  The claim as stated fails when standard output is closed: the \<^verbatim>\<open>print\<close> of the warning
  raises inside the \<^verbatim>\<open>try\<close>, the handler's \<^verbatim>\<open>print\<close> raises again, and the exception
  leaves the function.
\<close>

theorem no_content_returns_path_counterexample:
  "imread (env_variant identity_filter closed_stdout) world_black ''a.png'' = Some [[(0, 0, 0)]] \<and>
   cvtColor (env_variant identity_filter closed_stdout) [[(0, 0, 0)]] = Inr [[0]] \<and>
   preprocess_image_for_ocr (env_variant identity_filter closed_stdout) ''a.png'' world_black =
     (Inl (ValueError ''I/O operation on closed file''), world_black)"
  by (simp add: preprocess_image_for_ocr_def try_except_def py_print_def then_return_def
      imread_def world_black_def env_variant_def env0_def closed_stdout_def military_image_def
      bind_e_def foreground_coords_def)

section \<open>Two-level images\<close>

lemma binary_iff_nth:
  "binary img = (\<forall>y < length img. \<forall>x < length (img ! y). img ! y ! x = 0 \<or> img ! y ! x = 255)"
  unfolding binary_def by (metis in_set_conv_nth)

lemma binary_threshold: "binary (threshold src thresh 255 ty)"
  by (cases ty) (auto simp: binary_def threshold_def)

lemma binary_adaptiveThreshold: "binary (adaptiveThreshold env src 255 blockSize C)"
  by (auto simp: binary_def adaptiveThreshold_def)

lemma binary_map2:
  assumes a: "binary a" and b: "binary b"
    and f: "\<And>u v. (u = 0 \<or> u = 255) \<Longrightarrow> (v = 0 \<or> v = 255) \<Longrightarrow> f u v = 0 \<or> f u v = (255 :: pixel)"
  shows "binary (map2 (map2 f) a b)"
  unfolding binary_def
proof (intro ballI)
  fix row v
  assume row: "row \<in> set (map2 (map2 f) a b)" and v: "v \<in> set row"
  from row obtain ra rb where r: "(ra, rb) \<in> set (zip a b)" "row = map2 f ra rb" by auto
  from v r(2) obtain u u' where u: "(u, u') \<in> set (zip ra rb)" "v = f u u'" by auto
  from r(1) have "ra \<in> set a" "rb \<in> set b" by (auto dest: set_zip_leftD set_zip_rightD)
  moreover from u(1) have "u \<in> set ra" "u' \<in> set rb" by (auto dest: set_zip_leftD set_zip_rightD)
  ultimately have "u = 0 \<or> u = 255" "u' = 0 \<or> u' = 255"
    using a b by (auto simp: binary_def)
  with f u(2) show "v = 0 \<or> v = 255" by blast
qed

lemma binary_bitwise_or:
  "binary a \<Longrightarrow> binary b \<Longrightarrow> bitwise_or a b = Inr c \<Longrightarrow> binary c"
  by (auto simp: bitwise_or_def split: if_splits intro!: binary_map2)

lemma binary_subtract:
  "binary a \<Longrightarrow> binary b \<Longrightarrow> subtract a b = Inr c \<Longrightarrow> binary c"
  by (auto simp: subtract_def split: if_splits intro!: binary_map2)

lemma window_set: "set (window n k i) = {j. j < n \<and> i \<le> j + k div 2 \<and> j + k div 2 < i + k}"
  by (auto simp: window_def)

lemma neighbourhood_set:
  "set (neighbourhood img k y x) =
     {img ! yy ! xx | yy xx. yy \<in> set (window (length img) (fst k) y) \<and>
                            xx \<in> set (window (length (img ! yy)) (snd k) x)}"
  by (auto simp: neighbourhood_def)

lemma neighbourhood_binary:
  assumes "binary img" "v \<in> set (neighbourhood img k y x)"
  shows "v = 0 \<or> v = 255"
proof -
  from assms(2) obtain yy xx where "v = img ! yy ! xx" "yy < length img" "xx < length (img ! yy)"
    by (auto simp: neighbourhood_set window_set)
  with assms(1) show ?thesis by (simp add: binary_iff_nth)
qed

lemma fold_min_binary:
  "\<forall>v \<in> set vs. v = 0 \<or> v = (255 :: pixel) \<Longrightarrow> a = 0 \<or> a = 255 \<Longrightarrow>
     fold min vs a = 0 \<or> fold min vs a = 255"
  by (induction vs arbitrary: a) (auto simp: min_def)

lemma fold_max_binary:
  "\<forall>v \<in> set vs. v = 0 \<or> v = (255 :: pixel) \<Longrightarrow> a = 0 \<or> a = 255 \<Longrightarrow>
     fold max vs a = 0 \<or> fold max vs a = 255"
  by (induction vs arbitrary: a) (auto simp: max_def)

lemma length_erode [simp]: "length (erode img k) = length img"
  by (simp add: erode_def)

lemma length_erode_row [simp]: "y < length img \<Longrightarrow> length (erode img k ! y) = length (img ! y)"
  by (simp add: erode_def)

lemma erode_nth:
  "y < length img \<Longrightarrow> x < length (img ! y) \<Longrightarrow>
     erode img k ! y ! x = fold min (neighbourhood img k y x) 255"
  by (simp add: erode_def)

lemma length_dilate [simp]: "length (dilate img k) = length img"
  by (simp add: dilate_def)

lemma length_dilate_row [simp]: "y < length img \<Longrightarrow> length (dilate img k ! y) = length (img ! y)"
  by (simp add: dilate_def)

lemma dilate_nth:
  "y < length img \<Longrightarrow> x < length (img ! y) \<Longrightarrow>
     dilate img k ! y ! x = fold max (neighbourhood img k y x) 0"
  by (simp add: dilate_def)

lemma binary_erode:
  assumes "binary img"
  shows "binary (erode img k)"
  unfolding binary_iff_nth [of "erode img k"]
proof (intro allI impI)
  fix y x
  assume "y < length (erode img k)" and "x < length (erode img k ! y)"
  then have yx: "y < length img" "x < length (img ! y)" by simp_all
  have "fold min (neighbourhood img k y x) 255 = 0 \<or> fold min (neighbourhood img k y x) 255 = 255"
    using assms by (intro fold_min_binary) (auto dest: neighbourhood_binary)
  then show "erode img k ! y ! x = 0 \<or> erode img k ! y ! x = 255"
    by (simp only: erode_nth [OF yx])
qed

lemma binary_dilate:
  assumes "binary img"
  shows "binary (dilate img k)"
  unfolding binary_iff_nth [of "dilate img k"]
proof (intro allI impI)
  fix y x
  assume "y < length (dilate img k)" and "x < length (dilate img k ! y)"
  then have yx: "y < length img" "x < length (img ! y)" by simp_all
  have "fold max (neighbourhood img k y x) 0 = 0 \<or> fold max (neighbourhood img k y x) 0 = 255"
    using assms by (intro fold_max_binary) (auto dest: neighbourhood_binary)
  then show "dilate img k ! y ! x = 0 \<or> dilate img k ! y ! x = 255"
    by (simp only: dilate_nth [OF yx])
qed

lemma binary_morphologyEx: "binary src \<Longrightarrow> binary (morphologyEx src op k)"
  by (cases op) (simp_all add: morphologyEx_def binary_erode binary_dilate)

lemma binary_fillPoly: "binary img \<Longrightarrow> binary (fillPoly env img pts 0)"
proof (induction pts arbitrary: img)
  case Nil
  then show ?case by (simp add: fillPoly_def)
next
  case (Cons c pts)
  let ?im = "map (\<lambda>y. map (\<lambda>x. if polygon env c y x then 0 else img ! y ! x)
                              [0..<length (img ! y)]) [0..<length img]"
  have "binary ?im"
    unfolding binary_iff_nth [of ?im] using Cons.prems by (auto simp: binary_iff_nth)
  from Cons.IH [OF this] show ?case by (simp add: fillPoly_def)
qed

lemma binary_remove_small_blobs:
  "binary processed \<Longrightarrow> remove_small_blobs env contours processed = Inr out \<Longrightarrow> binary out"
proof (induction contours arbitrary: processed)
  case Nil
  then show ?case by simp
next
  case (Cons c rest)
  from Cons.prems(2) obtain area where a: "contourArea env c = Inr area"
    by (cases "contourArea env c") (auto simp: bind_e_def)
  show ?case
  proof (cases "area < 10")
    case True
    with a Cons.prems(2)
    have "remove_small_blobs env rest (fillPoly env processed [c] 0) = Inr out"
      by (simp add: bind_e_def)
    with Cons.IH [OF binary_fillPoly [OF Cons.prems(1)]] show ?thesis by blast
  next
    case False
    with a Cons.prems(2) have "remove_small_blobs env rest processed = Inr out"
      by (simp add: bind_e_def)
    with Cons.IH [OF Cons.prems(1)] show ?thesis by blast
  qed
qed

lemma bind_e_Inr: "bind_e m f = Inr y \<Longrightarrow> \<exists>x. m = Inr x \<and> f x = Inr y"
  by (cases m) (auto simp: bind_e_def)

lemma binary_post_deskew: "post_deskew env rotated = Inr out \<Longrightarrow> binary out"
  unfolding post_deskew_def Let_def
  by (auto dest!: bind_e_Inr intro: binary_remove_small_blobs binary_morphologyEx binary_threshold)

lemma binary_military_image: "military_image env img = Inr (Some out) \<Longrightarrow> binary out"
  unfolding military_image_def Let_def
  by (auto dest!: bind_e_Inr split: if_splits intro: binary_post_deskew)

lemma binary_binarize_combined: "binarize_combined env enhanced = Inr combined \<Longrightarrow> binary combined"
  unfolding binarize_combined_def Let_def
  by (rule binary_bitwise_or [OF binary_threshold binary_adaptiveThreshold])

lemma binary_remove_ui_lines:
  assumes "binary processed" and "remove_ui_lines processed = Inr out"
  shows "binary out"
proof -
  let ?h = "morphologyEx processed MORPH_OPEN (getStructuringElement_RECT (25, 1))"
  let ?v = "morphologyEx processed MORPH_OPEN (getStructuringElement_RECT (1, 25))"
  from assms(2) obtain p1 where p1: "subtract processed ?h = Inr p1" "subtract p1 ?v = Inr out"
    unfolding remove_ui_lines_def Let_def by (auto dest!: bind_e_Inr)
  have "binary p1"
    using assms(1) binary_morphologyEx [OF assms(1)] p1(1) by (rule binary_subtract)
  then show ?thesis
    using binary_morphologyEx [OF assms(1)] p1(2) by (rule binary_subtract)
qed

lemma binary_messaging_image:
  assumes "messaging_image env img = Inr out"
  shows "binary out"
proof -
  from assms obtain enhanced combined where
    c: "binarize_combined env enhanced = Inr combined" and
    r: "remove_ui_lines (morphologyEx (morphologyEx combined MORPH_OPEN (ones 2 2))
          MORPH_CLOSE (ones 5 5)) = Inr out"
    unfolding messaging_image_def Let_def by (auto dest!: bind_e_Inr)
  have "binary combined" using c by (rule binary_binarize_combined)
  then have "binary (morphologyEx (morphologyEx combined MORPH_OPEN (ones 2 2))
          MORPH_CLOSE (ones 5 5))"
    by (intro binary_morphologyEx)
  then show ?thesis using r by (rule binary_remove_ui_lines)
qed

lemma binary_conservative_image: "conservative_image env img = Inr out \<Longrightarrow> binary out"
  unfolding conservative_image_def
  by (auto dest!: bind_e_Inr intro: binary_threshold)

lemma binary_extreme_image: "extreme_image env img = Inr out \<Longrightarrow> binary out"
  unfolding extreme_image_def Let_def
  by (auto dest!: bind_e_Inr intro: binary_morphologyEx binary_threshold)

section \<open>The functions, outcome by outcome\<close>

lemma then_return_print:
  "then_return (py_print env line w) x = (r, w') \<Longrightarrow>
     fs w' = fs w \<and> (r = Inr x \<or> (\<exists>e. r = Inl e \<and> print_error env line = Some e))"
  by (auto simp: then_return_def py_print_def split: option.splits)

lemma preprocess_image_for_ocr_cases:
  assumes "preprocess_image_for_ocr env p w = (r, w')"
  shows "(military_succeeds env w p \<and> r = Inr (temp_military p) \<and>
      (\<exists>img processed. imread env w p = Some img \<and> military_image env img = Inr (Some processed) \<and>
         (fs w' = fs w \<or>
          fs w' = (fs w)(resolve env (temp_military p) \<mapsto> Gray processed)))) \<or>
     (\<not> military_succeeds env w p \<and> fs w' = fs w \<and>
      (r = Inr p \<or> (\<exists>e line. r = Inl e \<and> print_error env line = Some e)))"
  using assms
  by (auto simp: temp_military_def military_succeeds_def preprocess_image_for_ocr_def try_except_def
      imwrite_def Let_def
      split: option.splits sum.splits bool.splits prod.splits dest!: then_return_print)

lemma preprocess_messaging_app_screenshot_cases:
  assumes "preprocess_messaging_app_screenshot env p w = (r, w')"
  shows "(messaging_succeeds env w p \<and> r = Inr (temp_messaging p) \<and>
      (\<exists>img processed. imread env w p = Some img \<and> messaging_image env img = Inr processed \<and>
         (fs w' = fs w \<or>
          fs w' = (fs w)(resolve env (temp_messaging p) \<mapsto> Gray processed)))) \<or>
     (\<not> messaging_succeeds env w p \<and> fs w' = fs w \<and>
      (r = Inr p \<or> (\<exists>e line. r = Inl e \<and> print_error env line = Some e)))"
  using assms
  by (auto simp: temp_messaging_def messaging_succeeds_def preprocess_messaging_app_screenshot_def
      try_except_def imwrite_def Let_def
      split: option.splits sum.splits bool.splits prod.splits dest!: then_return_print)

lemma method3_cases:
  assumes "method3 env (stem p) img ms w = (r, w')"
  shows "(method3_raises env p img \<and> (\<exists>e. r = Inl e) \<and> fs w' = fs w) \<or>
     (\<not> method3_raises env p img \<and> img = None \<and> r = Inr ms \<and> w' = w) \<or>
     (\<not> method3_raises env p img \<and>
      r = Inr (ms @ [(''conservative'', temp_conservative p)]) \<and>
      (\<exists>im out. img = Some im \<and> conservative_image env im = Inr out \<and>
         (fs w' = fs w \<or> fs w' = (fs w)(resolve env (temp_conservative p) \<mapsto> Gray out))))"
  using assms
  by (auto simp: temp_conservative_def method3_raises_def method3_def imwrite_def Let_def
      split: option.splits sum.splits bool.splits prod.splits)

lemma method4_cases:
  assumes "method4 env (stem p) img ms w = (r, w')"
  shows "(method4_raises env p img \<and> (\<exists>e. r = Inl e) \<and> fs w' = fs w) \<or>
     (\<not> method4_raises env p img \<and> img = None \<and> r = Inr ms \<and> w' = w) \<or>
     (\<not> method4_raises env p img \<and>
      r = Inr (ms @ [(''extreme_enhancement'', temp_extreme p)]) \<and>
      (\<exists>im out. img = Some im \<and> extreme_image env im = Inr out \<and>
         (fs w' = fs w \<or> fs w' = (fs w)(resolve env (temp_extreme p) \<mapsto> Gray out))))"
  using assms
  by (auto simp: temp_extreme_def method4_raises_def method4_def imwrite_def Let_def
      split: option.splits sum.splits bool.splits prod.splits)

lemma enhance_image_contrast_cases:
  assumes "enhance_image_contrast env p w = (r, w')"
  shows "((r = Inr p \<or> (\<exists>e. r = Inl e)) \<and> fs w' = fs w) \<or>
     (r = Inr (temp_enhanced p) \<and>
      (\<exists>out. fs w' = (fs w)(resolve env (temp_enhanced p) \<mapsto> Gray out)))"
  using assms
  by (auto simp: temp_enhanced_def enhance_image_contrast_def try_except_def Let_def
      split: option.splits sum.splits bool.splits prod.splits dest!: then_return_print)

lemma raised_Inl [simp]: "raised (Inl e, w)"
  by (simp add: raised_def)

lemma raised_Inr [simp]: "\<not> raised (Inr x, w)"
  by (simp add: raised_def)

lemma raised_iff: "raised rw = (\<exists>e. fst rw = Inl e)"
  by (cases "fst rw") (simp_all add: raised_def)

text \<open>
  The body of the generator, outcome by outcome: it raises exactly when one of the four
  methods raises, and otherwise lists what methods 1 and 2 returned, followed by the two
  template paths of methods 3 and 4 when the image was loaded for them.
\<close>

lemma multiple_methods_body_cases:
  assumes "multiple_methods_body env p w = (r, w')"
  shows "(raised (r, w') =
       (raised (preprocess_image_for_ocr env p w) \<or>
        raised (preprocess_messaging_app_screenshot env p (snd (preprocess_image_for_ocr env p w))) \<or>
        method3_raises env p
          (imread env (snd (preprocess_messaging_app_screenshot env p
             (snd (preprocess_image_for_ocr env p w)))) p) \<or>
        method4_raises env p
          (imread env (snd (preprocess_messaging_app_screenshot env p
             (snd (preprocess_image_for_ocr env p w)))) p))) \<and>
     (\<not> raised (r, w') \<longrightarrow>
        (\<exists>t1 t2.
           fst (preprocess_image_for_ocr env p w) = Inr t1 \<and>
           fst (preprocess_messaging_app_screenshot env p (snd (preprocess_image_for_ocr env p w)))
             = Inr t2 \<and>
           r = Inr ([(''military_grade'', t1), (''messaging_specialized'', t2)] @
                    (if imread env (snd (preprocess_messaging_app_screenshot env p
                          (snd (preprocess_image_for_ocr env p w)))) p = None
                     then []
                     else [(''conservative'', temp_conservative p),
                           (''extreme_enhancement'', temp_extreme p)]))))"
proof -
  obtain r1 w1 where a: "preprocess_image_for_ocr env p w = (r1, w1)"
    by (cases "preprocess_image_for_ocr env p w")
  show ?thesis
  proof (cases r1)
    case (Inl e)
    with a assms have "r = Inl e" by (simp add: multiple_methods_body_def Let_def)
    with a Inl show ?thesis by simp
  next
    case t1: (Inr t1)
    obtain r2 w2 where b: "preprocess_messaging_app_screenshot env p w1 = (r2, w2)"
      by (cases "preprocess_messaging_app_screenshot env p w1")
    show ?thesis
    proof (cases r2)
      case (Inl e)
      with a b t1 assms have "r = Inl e" by (simp add: multiple_methods_body_def Let_def)
      with a b t1 Inl show ?thesis by simp
    next
      case t2: (Inr t2)
      let ?img = "imread env w2 p"
      let ?ms = "[(''military_grade'', t1), (''messaging_specialized'', t2)]"
      obtain r3 w3 where c: "method3 env (stem p) ?img ?ms w2 = (r3, w3)"
        by (cases "method3 env (stem p) ?img ?ms w2")
      show ?thesis
      proof (cases r3)
        case (Inl e)
        with a b c t1 t2 assms have "r = Inl e" by (simp add: multiple_methods_body_def Let_def)
        moreover from method3_cases [OF c] Inl have "method3_raises env p ?img" by auto
        ultimately show ?thesis using a b t1 t2 by simp
      next
        case (Inr ms3)
        with a b c t1 t2 assms have d: "method4 env (stem p) ?img ms3 w3 = (r, w')"
          by (simp add: multiple_methods_body_def Let_def)
        from method3_cases [OF c] Inr
        have m3: "\<not> method3_raises env p ?img"
          "(?img = None \<and> ms3 = ?ms) \<or>
           (?img \<noteq> None \<and> ms3 = ?ms @ [(''conservative'', temp_conservative p)])"
          by auto
        from method4_cases [OF d]
        have m4: "(method4_raises env p ?img \<and> (\<exists>e. r = Inl e)) \<or>
            (\<not> method4_raises env p ?img \<and> ?img = None \<and> r = Inr ms3) \<or>
            (\<not> method4_raises env p ?img \<and> ?img \<noteq> None \<and>
             r = Inr (ms3 @ [(''extreme_enhancement'', temp_extreme p)]))"
          by auto
        from m3 m4 have
          "(method4_raises env p ?img \<and> (\<exists>e. r = Inl e)) \<or>
           (\<not> method4_raises env p ?img \<and>
            r = Inr (?ms @ (if ?img = None then []
                            else [(''conservative'', temp_conservative p),
                                  (''extreme_enhancement'', temp_extreme p)])))"
          by auto
        then show ?thesis using a b t1 t2 m3(1) by auto
      qed
    qed
  qed
qed

lemma preprocess_with_multiple_methods_cases:
  assumes "preprocess_with_multiple_methods env p w = (r, w')"
  shows "(\<not> raised (multiple_methods_body env p w) \<and> r = fst (multiple_methods_body env p w)) \<or>
     (\<exists>e0. fst (multiple_methods_body env p w) = Inl e0 \<and>
        (case print_error env
                (''Multi-method preprocessing failed for '' @ p @ '': '' @ exn_str e0) of
           None \<Rightarrow> r = Inr [(''original'', p)]
         | Some e \<Rightarrow> r = Inl e))"
  using assms
  by (cases "multiple_methods_body env p w"; cases "fst (multiple_methods_body env p w)")
     (auto simp: preprocess_with_multiple_methods_def try_except_def then_return_def py_print_def
       split: option.splits)

lemma preprocess_with_multiple_methods_fs:
  assumes "preprocess_with_multiple_methods env p w = (r, w')"
  shows "fs w' = fs (snd (multiple_methods_body env p w))"
  using assms
  by (cases "multiple_methods_body env p w"; cases "fst (multiple_methods_body env p w)")
     (auto simp: preprocess_with_multiple_methods_def try_except_def then_return_def py_print_def
       split: option.splits)

lemma binary_writes_refl: "fs w' = fs w \<Longrightarrow> binary_writes w w'"
  by (simp add: binary_writes_def)

lemma binary_writes_trans: "binary_writes w w1 \<Longrightarrow> binary_writes w1 w2 \<Longrightarrow> binary_writes w w2"
  unfolding binary_writes_def by metis

lemma binary_writes_upd: "binary out \<Longrightarrow> fs w' = (fs w)(q \<mapsto> Gray out) \<Longrightarrow> binary_writes w w'"
  by (auto simp: binary_writes_def)

lemma binary_writes_military:
  assumes "preprocess_image_for_ocr env p w = (r, w')"
  shows "binary_writes w w'"
  using preprocess_image_for_ocr_cases [OF assms]
  by (auto intro: binary_writes_refl binary_writes_upd dest: binary_military_image)

lemma binary_writes_messaging:
  assumes "preprocess_messaging_app_screenshot env p w = (r, w')"
  shows "binary_writes w w'"
  using preprocess_messaging_app_screenshot_cases [OF assms]
  by (auto intro: binary_writes_refl binary_writes_upd dest: binary_messaging_image)

lemma binary_writes_method3:
  assumes "method3 env (stem p) img ms w = (r, w')"
  shows "binary_writes w w'"
  using method3_cases [OF assms]
  by (auto intro: binary_writes_refl binary_writes_upd dest: binary_conservative_image)

lemma binary_writes_method4:
  assumes "method4 env (stem p) img ms w = (r, w')"
  shows "binary_writes w w'"
  using method4_cases [OF assms]
  by (auto intro: binary_writes_refl binary_writes_upd dest: binary_extreme_image)

lemma binary_writes_body:
  assumes "multiple_methods_body env p w = (r, w')"
  shows "binary_writes w w'"
proof -
  obtain r1 w1 where a: "preprocess_image_for_ocr env p w = (r1, w1)"
    by (cases "preprocess_image_for_ocr env p w")
  note s1 = binary_writes_military [OF a]
  show ?thesis
  proof (cases r1)
    case (Inl e)
    with a assms have "w' = w1" by (simp add: multiple_methods_body_def Let_def)
    with s1 show ?thesis by simp
  next
    case t1: (Inr t1)
    obtain r2 w2 where b: "preprocess_messaging_app_screenshot env p w1 = (r2, w2)"
      by (cases "preprocess_messaging_app_screenshot env p w1")
    note s2 = binary_writes_trans [OF s1 binary_writes_messaging [OF b]]
    show ?thesis
    proof (cases r2)
      case (Inl e)
      with a b t1 assms have "w' = w2" by (simp add: multiple_methods_body_def Let_def)
      with s2 show ?thesis by simp
    next
      case t2: (Inr t2)
      let ?ms = "[(''military_grade'', t1), (''messaging_specialized'', t2)]"
      obtain r3 w3 where c: "method3 env (stem p) (imread env w2 p) ?ms w2 = (r3, w3)"
        by (cases "method3 env (stem p) (imread env w2 p) ?ms w2")
      note s3 = binary_writes_trans [OF s2 binary_writes_method3 [OF c]]
      show ?thesis
      proof (cases r3)
        case (Inl e)
        with a b c t1 t2 assms have "w' = w3" by (simp add: multiple_methods_body_def Let_def)
        with s3 show ?thesis by simp
      next
        case (Inr ms3)
        with a b c t1 t2 assms have d: "method4 env (stem p) (imread env w2 p) ms3 w3 = (r, w')"
          by (simp add: multiple_methods_body_def Let_def)
        from binary_writes_trans [OF s3 binary_writes_method4 [OF d]] show ?thesis .
      qed
    qed
  qed
qed

lemma binary_writes_multiple:
  assumes "preprocess_with_multiple_methods env p w = (r, w')"
  shows "binary_writes w w'"
proof -
  have "binary_writes (snd (multiple_methods_body env p w)) w'"
    using preprocess_with_multiple_methods_fs [OF assms] by (rule binary_writes_refl)
  with binary_writes_body [OF prod.collapse [symmetric]] show ?thesis
    by (rule binary_writes_trans)
qed

section \<open>Runs on a one-pixel white image\<close>

lemma pixel_le_255: "(v :: pixel) \<le> 255"
proof -
  have "(255 :: pixel) = - 1" by simp
  then show ?thesis by (simp only: word_n1_ge)
qed

lemma window_single: "0 < k \<Longrightarrow> window (Suc 0) k 0 = [0]"
  by (simp add: window_def)

lemma neighbourhood_single:
  "0 < fst k \<Longrightarrow> 0 < snd k \<Longrightarrow> neighbourhood [[v]] k 0 0 = [v]"
  by (simp add: neighbourhood_def window_single)

lemma morphologyEx_single:
  "0 < fst k \<Longrightarrow> 0 < snd k \<Longrightarrow> morphologyEx [[v]] op k = [[v]]"
  by (cases op)
     (simp_all add: morphologyEx_def erode_def dilate_def neighbourhood_single min_absorb1 pixel_le_255)

lemma env0_variant: "env_variant identity_filter print_works = env0"
  by (simp add: env_variant_def env0_def identity_filter_def print_works_def fun_eq_iff)

lemma military_white:
  "military_image (env_variant bf pe) [[(255, 255, 255)]] = Inr (Some [[0]])"
  by (simp add: military_image_def env_variant_def env0_def bind_e_def foreground_coords_def
      deskew_def post_deskew_def threshold_def ones_def morphologyEx_single)

lemma messaging_white:
  "messaging_image (env_variant bf pe) [[(255, 255, 255)]] = Inr [[0]]"
  by (simp add: messaging_image_def env_variant_def env0_def bind_e_def binarize_combined_def
      threshold_def adaptiveThreshold_def bitwise_or_def same_size_def ones_def morphologyEx_single
      remove_ui_lines_def getStructuringElement_RECT_def subtract_def)

lemma conservative_white:
  "conservative_image (env_variant bf pe) [[(255, 255, 255)]] = Inr [[255]]"
  by (simp add: conservative_image_def env_variant_def env0_def bind_e_def threshold_def)

lemma extreme_white_fails:
  "extreme_image (env_variant out_of_memory pe) [[(255, 255, 255)]] = Inl (CvError ''Insufficient memory'')"
  by (simp add: extreme_image_def env_variant_def env0_def bind_e_def out_of_memory_def)

lemma extreme_white:
  "extreme_image env0 [[(255, 255, 255)]] = Inr [[255]]"
  by (simp add: extreme_image_def env0_def bind_e_def threshold_def ones_def morphologyEx_single)

lemma imwrite_ok:
  "imwrite (env_variant bf pe) p img w = (Inr True, w\<lparr>fs := (fs w)(p \<mapsto> Gray img)\<rparr>)"
  by (simp add: imwrite_def env_variant_def env0_def)

lemma imread_white: "imread (env_variant bf pe) world_white ''a.png'' = Some [[(255, 255, 255)]]"
  by (simp add: imread_def world_white_def env_variant_def env0_def)

lemma imread_white_upd:
  "imread (env_variant bf pe) w ''a.png'' = Some img \<Longrightarrow> q \<noteq> ''a.png'' \<Longrightarrow>
     imread (env_variant bf pe) (w\<lparr>fs := (fs w)(q \<mapsto> f)\<rparr>) ''a.png'' = Some img"
  by (simp add: imread_def env_variant_def env0_def)

lemma military_run:
  "imread (env_variant bf pe) w ''a.png'' = Some [[(255, 255, 255)]] \<Longrightarrow>
   preprocess_image_for_ocr (env_variant bf pe) ''a.png'' w =
   (Inr ''temp_military_processed_a_ocr.png'',
    w\<lparr>fs := (fs w)(''temp_military_processed_a_ocr.png'' \<mapsto> Gray [[0]])\<rparr>)"
  by (simp add: preprocess_image_for_ocr_def try_except_def military_white stem_a imwrite_ok Let_def)

lemma messaging_run:
  "imread (env_variant bf pe) w ''a.png'' = Some [[(255, 255, 255)]] \<Longrightarrow>
   preprocess_messaging_app_screenshot (env_variant bf pe) ''a.png'' w =
   (Inr ''temp_messaging_processed_a_ocr.png'',
    w\<lparr>fs := (fs w)(''temp_messaging_processed_a_ocr.png'' \<mapsto> Gray [[0]])\<rparr>)"
  by (simp add: preprocess_messaging_app_screenshot_def try_except_def messaging_white stem_a
      imwrite_ok Let_def)

lemma method3_run:
  "method3 (env_variant bf pe) ''a'' (Some [[(255, 255, 255)]]) ms w =
   (Inr (ms @ [(''conservative'', ''temp_a_conservative.png'')]),
    w\<lparr>fs := (fs w)(''temp_a_conservative.png'' \<mapsto> Gray [[255]])\<rparr>)"
  by (simp add: method3_def conservative_white imwrite_ok Let_def)

lemma method4_run_fails:
  "method4 (env_variant out_of_memory pe) ''a'' (Some [[(255, 255, 255)]]) ms w =
   (Inl (CvError ''Insufficient memory''), w)"
  by (simp add: method4_def extreme_white_fails)

lemma method4_run:
  "method4 env0 ''a'' (Some [[(255, 255, 255)]]) ms w =
   (Inr (ms @ [(''extreme_enhancement'', ''temp_a_extreme.png'')]),
    w\<lparr>fs := (fs w)(''temp_a_extreme.png'' \<mapsto> Gray [[255]])\<rparr>)"
  using imwrite_ok [of identity_filter print_works]
  by (simp add: method4_def extreme_white Let_def env0_variant)

lemma multiple_methods_body_steps:
  assumes "preprocess_image_for_ocr env p w = (Inr t1, w1)"
    and "preprocess_messaging_app_screenshot env p w1 = (Inr t2, w2)"
    and "imread env w2 p = img"
    and "method3 env (stem p) img [(''military_grade'', t1), (''messaging_specialized'', t2)] w2 = (Inr ms, w3)"
  shows "multiple_methods_body env p w = method4 env (stem p) img ms w3"
  using assms by (simp add: multiple_methods_body_def Let_def)

lemma body_white:
  "\<exists>w3. multiple_methods_body (env_variant bf pe) ''a.png'' world_white =
     method4 (env_variant bf pe) ''a'' (Some [[(255, 255, 255)]])
       [(''military_grade'', ''temp_military_processed_a_ocr.png''),
        (''messaging_specialized'', ''temp_messaging_processed_a_ocr.png''),
        (''conservative'', ''temp_a_conservative.png'')] w3"
proof -
  let ?w1 = "world_white\<lparr>fs := (fs world_white)(''temp_military_processed_a_ocr.png'' \<mapsto> Gray [[0]])\<rparr>"
  let ?w2 = "?w1\<lparr>fs := (fs ?w1)(''temp_messaging_processed_a_ocr.png'' \<mapsto> Gray [[0]])\<rparr>"
  let ?w3 = "?w2\<lparr>fs := (fs ?w2)(''temp_a_conservative.png'' \<mapsto> Gray [[255]])\<rparr>"
  have i1: "imread (env_variant bf pe) ?w1 ''a.png'' = Some [[(255, 255, 255)]]"
    by (rule imread_white_upd [OF imread_white]) simp
  have i2: "imread (env_variant bf pe) ?w2 ''a.png'' = Some [[(255, 255, 255)]]"
    by (rule imread_white_upd [OF i1]) simp
  have "multiple_methods_body (env_variant bf pe) ''a.png'' world_white =
     method4 (env_variant bf pe) (stem ''a.png'') (Some [[(255, 255, 255)]])
       ([(''military_grade'', ''temp_military_processed_a_ocr.png''),
        (''messaging_specialized'', ''temp_messaging_processed_a_ocr.png'')] @
        [(''conservative'', ''temp_a_conservative.png'')]) ?w3"
    apply (rule multiple_methods_body_steps [OF military_run [OF imread_white] messaging_run [OF i1] i2])
    apply (simp only: stem_a)
    apply (rule method3_run)
    done
  then show ?thesis by (simp only: stem_a append.simps) blast
qed

lemma body_white_out_of_memory:
  "\<exists>w3. multiple_methods_body (env_variant out_of_memory pe) ''a.png'' world_white =
       (Inl (CvError ''Insufficient memory''), w3)"
  using body_white [of out_of_memory pe] by (auto simp only: method4_run_fails)

lemma generator_white_out_of_memory:
  "fst (preprocess_with_multiple_methods (env_variant out_of_memory print_works) ''a.png'' world_white) =
     Inr [(''original'', ''a.png'')] \<and>
   raised (multiple_methods_body (env_variant out_of_memory print_works) ''a.png'' world_white)"
proof -
  from body_white_out_of_memory [of print_works] obtain w3 where
    "multiple_methods_body (env_variant out_of_memory print_works) ''a.png'' world_white =
       (Inl (CvError ''Insufficient memory''), w3)" ..
  then show ?thesis
    by (simp add: preprocess_with_multiple_methods_def try_except_def raised_def then_return_def
        py_print_def env_variant_def print_works_def)
qed

lemma generator_white_closed_stdout:
  "fst (preprocess_with_multiple_methods (env_variant out_of_memory closed_stdout) ''a.png'' world_white) =
     Inl (ValueError ''I/O operation on closed file'') \<and>
   raised (multiple_methods_body (env_variant out_of_memory closed_stdout) ''a.png'' world_white)"
proof -
  from body_white_out_of_memory [of closed_stdout] obtain w3 where
    "multiple_methods_body (env_variant out_of_memory closed_stdout) ''a.png'' world_white =
       (Inl (CvError ''Insufficient memory''), w3)" ..
  then show ?thesis
    by (simp add: preprocess_with_multiple_methods_def try_except_def raised_def then_return_def
        py_print_def env_variant_def closed_stdout_def)
qed

lemma generator_white_all:
  "fst (preprocess_with_multiple_methods env0 ''a.png'' world_white) =
     Inr [(''military_grade'', ''temp_military_processed_a_ocr.png''),
        (''messaging_specialized'', ''temp_messaging_processed_a_ocr.png''),
        (''conservative'', ''temp_a_conservative.png''),
        (''extreme_enhancement'', ''temp_a_extreme.png'')] \<and>
   \<not> raised (multiple_methods_body env0 ''a.png'' world_white)"
proof -
  from body_white [of identity_filter print_works] obtain w3 w4 where
    "multiple_methods_body env0 ''a.png'' world_white =
       (Inr [(''military_grade'', ''temp_military_processed_a_ocr.png''),
        (''messaging_specialized'', ''temp_messaging_processed_a_ocr.png''),
        (''conservative'', ''temp_a_conservative.png''),
        (''extreme_enhancement'', ''temp_a_extreme.png'')], w4)"
    by (auto simp only: env0_variant method4_run append.simps)
  then show ?thesis
    by (simp add: preprocess_with_multiple_methods_def try_except_def raised_def)
qed

section \<open>The candidate generator\<close>

lemma temp_names_differ:
  "temp_military p \<noteq> p" "temp_messaging p \<noteq> p" "temp_conservative p \<noteq> p"
  "temp_extreme p \<noteq> p" "temp_enhanced p \<noteq> p"
  unfolding temp_military_def temp_messaging_def temp_conservative_def temp_extreme_def
    temp_enhanced_def
  by (rule template_neq; simp)+

lemma military_returns:
  "preprocess_image_for_ocr env p w0 = (Inr t, w1) \<Longrightarrow>
     t = (if military_succeeds env w0 p then temp_military p else p)"
  "preprocess_image_for_ocr env p w0 = (Inl e, w1) \<Longrightarrow>
     \<not> military_succeeds env w0 p \<and> (\<exists>line. print_error env line = Some e)"
  using preprocess_image_for_ocr_cases [of env p w0 "Inr t" w1]
    preprocess_image_for_ocr_cases [of env p w0 "Inl e" w1]
  by auto

lemma messaging_returns:
  "preprocess_messaging_app_screenshot env p w0 = (Inr t, w1) \<Longrightarrow>
     t = (if messaging_succeeds env w0 p then temp_messaging p else p)"
  "preprocess_messaging_app_screenshot env p w0 = (Inl e, w1) \<Longrightarrow>
     \<not> messaging_succeeds env w0 p \<and> (\<exists>line. print_error env line = Some e)"
  using preprocess_messaging_app_screenshot_cases [of env p w0 "Inr t" w1]
    preprocess_messaging_app_screenshot_cases [of env p w0 "Inl e" w1]
  by auto

lemma body_result_nonempty:
  assumes "\<not> raised (multiple_methods_body env p w)"
  shows "\<exists>methods. fst (multiple_methods_body env p w) = Inr methods \<and> methods \<noteq> []"
  using multiple_methods_body_cases [OF prod.collapse [symmetric], of env p w] assms
  by auto

text \<open>
  C4, as the code has it. Whenever \<^verbatim>\<open>preprocess_with_multiple_methods\<close> returns, its result
  is a non-empty sequence of candidates, and it is the single candidate
  \<^verbatim>\<open>('original', image_path)\<close> when the body of its \<^verbatim>\<open>try\<close> raised. The call raises only when
  that body raised and the \<^verbatim>\<open>print\<close> of the handler raises too, with the exception of that
  \<^verbatim>\<open>print\<close>; while \<^verbatim>\<open>print\<close> works it always returns.
\<close>

theorem generator_never_fails:
  assumes "preprocess_with_multiple_methods env image_path w = (r, w')"
  shows "(\<forall>methods. r = Inr methods \<longrightarrow>
        methods \<noteq> [] \<and>
        (raised (multiple_methods_body env image_path w) \<longrightarrow> methods = [(''original'', image_path)])) \<and>
     (\<forall>e. r = Inl e \<longrightarrow>
        (\<exists>e0. fst (multiple_methods_body env image_path w) = Inl e0 \<and>
           print_error env
             (''Multi-method preprocessing failed for '' @ image_path @ '': '' @ exn_str e0) = Some e)) \<and>
     ((\<forall>line. print_error env line = None) \<longrightarrow> (\<exists>methods. r = Inr methods \<and> methods \<noteq> []))"
proof -
  note c = preprocess_with_multiple_methods_cases [OF assms]
  have a: "methods \<noteq> [] \<and>
        (raised (multiple_methods_body env image_path w) \<longrightarrow> methods = [(''original'', image_path)])"
    if "r = Inr methods" for methods
    using c that body_result_nonempty [of env image_path w]
    by (cases "fst (multiple_methods_body env image_path w)")
       (auto simp: raised_def split: option.splits)
  have b: "\<exists>e0. fst (multiple_methods_body env image_path w) = Inl e0 \<and>
           print_error env
             (''Multi-method preprocessing failed for '' @ image_path @ '': '' @ exn_str e0) = Some e"
    if "r = Inl e" for e
    using c that
    by (cases "fst (multiple_methods_body env image_path w)")
       (auto simp: raised_def split: option.splits)
  have d: "\<exists>methods. r = Inr methods \<and> methods \<noteq> []"
    if "\<forall>line. print_error env line = None"
  proof (cases r)
    case (Inl e)
    from b [OF this] that show ?thesis by auto
  next
    case (Inr methods)
    with a [OF this] show ?thesis by simp
  qed
  from a b d show ?thesis by blast
qed

theorem generator_never_fails_witness:
  "fst (preprocess_with_multiple_methods (env_variant out_of_memory print_works) ''a.png'' world_white) =
     Inr [(''original'', ''a.png'')] \<and>
   raised (multiple_methods_body (env_variant out_of_memory print_works) ''a.png'' world_white) \<and>
   print_error (env_variant out_of_memory print_works) ''x'' = None"
  using generator_never_fails [OF prod.collapse [symmetric],
      of "env_variant out_of_memory print_works" "''a.png''" world_white]
    generator_white_out_of_memory
  by (simp add: env_variant_def print_works_def)

text \<open>
  The claim as stated fails when standard output is closed: method 4 raises on the
  one-pixel white image, the handler's \<^verbatim>\<open>print\<close> raises, and the call raises.
\<close>

theorem generator_never_fails_counterexample:
  "fst (preprocess_with_multiple_methods (env_variant out_of_memory closed_stdout) ''a.png'' world_white) =
     Inl (ValueError ''I/O operation on closed file'')"
  using generator_white_closed_stdout by (rule conjunct1)

text \<open>
  C1, as the code has it. Methods 1 and 2 catch their own failures: each returns its
  temp path when it meets no internal failure and the unmodified source path after one
  (the image does not load, the pipeline raises or finds no content, \<^verbatim>\<open>cv2.imwrite\<close>
  raises), and raises only when a \<^verbatim>\<open>print\<close> of its own raises. The body of the generator
  raises exactly when one of the four methods raises. When it does not, the result is
  the candidate \<^verbatim>\<open>military_grade\<close> with what method 1 returned, then
  \<^verbatim>\<open>messaging_specialized\<close> with what method 2 returned, then \<^verbatim>\<open>conservative\<close> and
  \<^verbatim>\<open>extreme_enhancement\<close> with their template paths, these two both left out when the
  image does not load for them. A raise in the body is not isolated: the call then
  returns the single candidate \<^verbatim>\<open>('original', image_path)\<close>, or raises when the \<^verbatim>\<open>print\<close> of
  its handler raises. While \<^verbatim>\<open>print\<close> works the call always returns.
\<close>

theorem generator_isolation_amended:
  assumes "preprocess_with_multiple_methods env image_path w = (r, w')"
  shows "(\<forall>w0 t w1. preprocess_image_for_ocr env image_path w0 = (Inr t, w1) \<longrightarrow>
        t = (if military_succeeds env w0 image_path
             then ''temp_military_processed_'' @ stem image_path @ ''_ocr.png'' else image_path)) \<and>
     (\<forall>w0 e w1. preprocess_image_for_ocr env image_path w0 = (Inl e, w1) \<longrightarrow>
        \<not> military_succeeds env w0 image_path \<and> (\<exists>line. print_error env line = Some e)) \<and>
     (\<forall>w0 t w1. preprocess_messaging_app_screenshot env image_path w0 = (Inr t, w1) \<longrightarrow>
        t = (if messaging_succeeds env w0 image_path
             then ''temp_messaging_processed_'' @ stem image_path @ ''_ocr.png'' else image_path)) \<and>
     (\<forall>w0 e w1. preprocess_messaging_app_screenshot env image_path w0 = (Inl e, w1) \<longrightarrow>
        \<not> messaging_succeeds env w0 image_path \<and> (\<exists>line. print_error env line = Some e)) \<and>
     (raised (multiple_methods_body env image_path w) =
        (raised (preprocess_image_for_ocr env image_path w) \<or>
         raised (preprocess_messaging_app_screenshot env image_path
                   (snd (preprocess_image_for_ocr env image_path w))) \<or>
         method3_raises env image_path
           (imread env (snd (preprocess_messaging_app_screenshot env image_path
              (snd (preprocess_image_for_ocr env image_path w)))) image_path) \<or>
         method4_raises env image_path
           (imread env (snd (preprocess_messaging_app_screenshot env image_path
              (snd (preprocess_image_for_ocr env image_path w)))) image_path))) \<and>
     (\<not> raised (multiple_methods_body env image_path w) \<longrightarrow>
        (\<exists>t1 t2.
           fst (preprocess_image_for_ocr env image_path w) = Inr t1 \<and>
           fst (preprocess_messaging_app_screenshot env image_path
                  (snd (preprocess_image_for_ocr env image_path w))) = Inr t2 \<and>
           r = Inr ([(''military_grade'', t1), (''messaging_specialized'', t2)] @
                    (if imread env (snd (preprocess_messaging_app_screenshot env image_path
                          (snd (preprocess_image_for_ocr env image_path w)))) image_path = None
                     then []
                     else [(''conservative'', ''temp_'' @ stem image_path @ ''_conservative.png''),
                           (''extreme_enhancement'', ''temp_'' @ stem image_path @ ''_extreme.png'')])))) \<and>
     (raised (multiple_methods_body env image_path w) \<longrightarrow>
        r = Inr [(''original'', image_path)] \<or> (\<exists>e line. r = Inl e \<and> print_error env line = Some e)) \<and>
     ((\<forall>line. print_error env line = None) \<longrightarrow> (\<exists>methods. r = Inr methods))"
proof -
  let ?B = "multiple_methods_body env image_path w"
  note c = preprocess_with_multiple_methods_cases [OF assms]
  note b = multiple_methods_body_cases [OF prod.collapse [symmetric], of env image_path w]
  have m1: "\<forall>w0 t w1. preprocess_image_for_ocr env image_path w0 = (Inr t, w1) \<longrightarrow>
        t = (if military_succeeds env w0 image_path then temp_military image_path else image_path)"
    using military_returns(1) by blast
  have m1': "\<forall>w0 e w1. preprocess_image_for_ocr env image_path w0 = (Inl e, w1) \<longrightarrow>
        \<not> military_succeeds env w0 image_path \<and> (\<exists>line. print_error env line = Some e)"
    using military_returns(2) by blast
  have m2: "\<forall>w0 t w1. preprocess_messaging_app_screenshot env image_path w0 = (Inr t, w1) \<longrightarrow>
        t = (if messaging_succeeds env w0 image_path then temp_messaging image_path else image_path)"
    using messaging_returns(1) by blast
  have m2': "\<forall>w0 e w1. preprocess_messaging_app_screenshot env image_path w0 = (Inl e, w1) \<longrightarrow>
        \<not> messaging_succeeds env w0 image_path \<and> (\<exists>line. print_error env line = Some e)"
    using messaging_returns(2) by blast
  have rb: "raised (fst ?B, snd ?B) = raised ?B" by simp
  note b1 = b [THEN conjunct1, unfolded rb]
  note b2 = b [THEN conjunct2, unfolded rb]
  have ok: "r = fst ?B" if "\<not> raised ?B"
    using c that by (cases "fst ?B") (auto simp: raised_def split: option.splits)
  have g: "\<not> raised ?B \<longrightarrow>
        (\<exists>t1 t2.
           fst (preprocess_image_for_ocr env image_path w) = Inr t1 \<and>
           fst (preprocess_messaging_app_screenshot env image_path
                  (snd (preprocess_image_for_ocr env image_path w))) = Inr t2 \<and>
           r = Inr ([(''military_grade'', t1), (''messaging_specialized'', t2)] @
                    (if imread env (snd (preprocess_messaging_app_screenshot env image_path
                          (snd (preprocess_image_for_ocr env image_path w)))) image_path = None
                     then []
                     else [(''conservative'', temp_conservative image_path),
                           (''extreme_enhancement'', temp_extreme image_path)])))"
  proof
    assume n: "\<not> raised ?B"
    from b2 n ok [OF n] show "\<exists>t1 t2.
           fst (preprocess_image_for_ocr env image_path w) = Inr t1 \<and>
           fst (preprocess_messaging_app_screenshot env image_path
                  (snd (preprocess_image_for_ocr env image_path w))) = Inr t2 \<and>
           r = Inr ([(''military_grade'', t1), (''messaging_specialized'', t2)] @
                    (if imread env (snd (preprocess_messaging_app_screenshot env image_path
                          (snd (preprocess_image_for_ocr env image_path w)))) image_path = None
                     then []
                     else [(''conservative'', temp_conservative image_path),
                           (''extreme_enhancement'', temp_extreme image_path)]))"
      by simp
  qed
  have h: "raised ?B \<longrightarrow>
        r = Inr [(''original'', image_path)] \<or> (\<exists>e line. r = Inl e \<and> print_error env line = Some e)"
    using c by (cases "fst ?B") (auto simp: raised_def split: option.splits)
  have k: "(\<forall>line. print_error env line = None) \<longrightarrow> (\<exists>methods. r = Inr methods)"
    using c by (cases "fst ?B") (auto simp: raised_def split: option.splits)
  from m1 m1' m2 m2' b1 g h k show ?thesis
    unfolding temp_military_def temp_messaging_def temp_conservative_def temp_extreme_def
    by (intro conjI)
qed

theorem generator_isolation_amended_witness:
  "fst (preprocess_with_multiple_methods env0 ''a.png'' world_white) =
     Inr [(''military_grade'', ''temp_military_processed_a_ocr.png''),
        (''messaging_specialized'', ''temp_messaging_processed_a_ocr.png''),
        (''conservative'', ''temp_a_conservative.png''),
        (''extreme_enhancement'', ''temp_a_extreme.png'')] \<and>
   \<not> raised (multiple_methods_body env0 ''a.png'' world_white) \<and>
   fst (preprocess_image_for_ocr env0 ''a.png'' world_white) = Inr ''temp_military_processed_a_ocr.png'' \<and>
   military_succeeds env0 world_white ''a.png'' \<and>
   (\<exists>methods. fst (preprocess_with_multiple_methods env0 ''a.png'' world_white) = Inr methods)"
proof -
  note t = generator_isolation_amended [OF prod.collapse [symmetric], of env0 "''a.png''" world_white]
  have p: "\<forall>line. print_error env0 line = None" by (simp add: env0_def)
  have a: "\<exists>methods. fst (preprocess_with_multiple_methods env0 ''a.png'' world_white) = Inr methods"
    by (rule t [THEN conjunct2, THEN conjunct2, THEN conjunct2, THEN conjunct2, THEN conjunct2,
          THEN conjunct2, THEN conjunct2, THEN mp, OF p])
  have b: "fst (preprocess_image_for_ocr env0 ''a.png'' world_white) = Inr ''temp_military_processed_a_ocr.png''"
    using military_run [OF imread_white, of identity_filter print_works] by (simp add: env0_variant)
  have c: "military_succeeds env0 world_white ''a.png''"
    using imread_white [of identity_filter print_works] military_white [of identity_filter print_works]
    by (simp add: military_succeeds_def env0_variant) (simp add: env0_def)
  from generator_white_all a b c show ?thesis by (intro conjI) (elim conjE, assumption)+
qed

text \<open>
  The claim as stated fails: with a bilateral filter that runs out of memory, methods 1,
  2 and 3 succeed on the one-pixel white image and only method 4 fails, yet none of
  their candidates appears in the result.
\<close>

theorem generator_isolation_counterexample:
  "fst (preprocess_image_for_ocr (env_variant out_of_memory print_works) ''a.png'' world_white) =
     Inr ''temp_military_processed_a_ocr.png'' \<and>
   fst (preprocess_messaging_app_screenshot (env_variant out_of_memory print_works) ''a.png'' world_white) =
     Inr ''temp_messaging_processed_a_ocr.png'' \<and>
   conservative_image (env_variant out_of_memory print_works) [[(255, 255, 255)]] = Inr [[255]] \<and>
   extreme_image (env_variant out_of_memory print_works) [[(255, 255, 255)]] =
     Inl (CvError ''Insufficient memory'') \<and>
   fst (preprocess_with_multiple_methods (env_variant out_of_memory print_works) ''a.png'' world_white) =
     Inr [(''original'', ''a.png'')]"
  using generator_white_out_of_memory
  by (simp add: military_run [OF imread_white] messaging_run [OF imread_white] conservative_white
      extreme_white_fails)

section \<open>Two-level outputs and artifact names\<close>

text \<open>
  C8. Thresholding yields a two-level image, and combining by OR, opening and closing,
  subtraction and filling with 0 keep an image two-level; so the image each of the four
  pipelines hands to \<^verbatim>\<open>cv2.imwrite\<close> is two-level, and every file that the two single
  pipelines or the generator create or change holds a two-level raster.
\<close>

theorem binary_outputs:
  "binary (threshold src thresh 255 ty) \<and>
   binary (adaptiveThreshold env src 255 blockSize C) \<and>
   (binary a \<and> binary b \<and> bitwise_or a b = Inr c \<longrightarrow> binary c) \<and>
   (binary a \<longrightarrow> binary (morphologyEx a op k)) \<and>
   (binary a \<and> binary b \<and> subtract a b = Inr d \<longrightarrow> binary d) \<and>
   (binary a \<longrightarrow> binary (fillPoly env a pts 0)) \<and>
   (military_image env img = Inr (Some out1) \<longrightarrow> binary out1) \<and>
   (messaging_image env img = Inr out2 \<longrightarrow> binary out2) \<and>
   (conservative_image env img = Inr out3 \<longrightarrow> binary out3) \<and>
   (extreme_image env img = Inr out4 \<longrightarrow> binary out4) \<and>
   binary_writes w (snd (preprocess_image_for_ocr env image_path w)) \<and>
   binary_writes w (snd (preprocess_messaging_app_screenshot env image_path w)) \<and>
   binary_writes w (snd (preprocess_with_multiple_methods env image_path w))"
proof -
  have m: "binary_writes w (snd (preprocess_image_for_ocr env image_path w))"
    by (rule binary_writes_military [OF prod.collapse [symmetric]])
  have s: "binary_writes w (snd (preprocess_messaging_app_screenshot env image_path w))"
    by (rule binary_writes_messaging [OF prod.collapse [symmetric]])
  have g: "binary_writes w (snd (preprocess_with_multiple_methods env image_path w))"
    by (rule binary_writes_multiple [OF prod.collapse [symmetric]])
  show ?thesis
  proof (intro conjI impI)
    show "binary (threshold src thresh 255 ty)" by (rule binary_threshold)
    show "binary (adaptiveThreshold env src 255 blockSize C)" by (rule binary_adaptiveThreshold)
    show "binary c" if "binary a \<and> binary b \<and> bitwise_or a b = Inr c"
      using that by (blast intro: binary_bitwise_or)
    show "binary (morphologyEx a op k)" if "binary a"
      using that by (rule binary_morphologyEx)
    show "binary d" if "binary a \<and> binary b \<and> subtract a b = Inr d"
      using that by (blast intro: binary_subtract)
    show "binary (fillPoly env a pts 0)" if "binary a"
      using that by (rule binary_fillPoly)
    show "binary out1" if "military_image env img = Inr (Some out1)"
      using that by (rule binary_military_image)
    show "binary out2" if "messaging_image env img = Inr out2"
      using that by (rule binary_messaging_image)
    show "binary out3" if "conservative_image env img = Inr out3"
      using that by (rule binary_conservative_image)
    show "binary out4" if "extreme_image env img = Inr out4"
      using that by (rule binary_extreme_image)
  qed (rule m s g)+
qed

theorem binary_outputs_witness:
  "military_image env0 [[(255, 255, 255)]] = Inr (Some [[0]]) \<and> binary [[0]] \<and>
   messaging_image env0 [[(255, 255, 255)]] = Inr [[0]] \<and>
   conservative_image env0 [[(255, 255, 255)]] = Inr [[255]] \<and> binary [[255]] \<and>
   extreme_image env0 [[(255, 255, 255)]] = Inr [[255]] \<and>
   bitwise_or [[0]] [[255]] = Inr [[255]] \<and>
   subtract [[255]] [[255]] = Inr [[0]] \<and>
   binary_writes world_white (snd (preprocess_with_multiple_methods env0 ''a.png'' world_white))"
proof -
  have a: "military_image env0 [[(255, 255, 255)]] = Inr (Some [[0]])"
    using military_white [of identity_filter print_works] by (simp only: env0_variant)
  have b: "messaging_image env0 [[(255, 255, 255)]] = Inr [[0]]"
    using messaging_white [of identity_filter print_works] by (simp only: env0_variant)
  have c: "conservative_image env0 [[(255, 255, 255)]] = Inr [[255]]"
    using conservative_white [of identity_filter print_works] by (simp only: env0_variant)
  have d: "bitwise_or [[0]] [[255]] = Inr [[255]]" "subtract [[255]] [[255]] = Inr [[0]]"
    by (simp_all add: bitwise_or_def subtract_def same_size_def)
  from binary_outputs [of _ _ _ env0 _ _ "[[0]]" "[[255]]" "[[255]]" _ _ "[[0]]" _
      "[[(255, 255, 255)]]" "[[0]]" "[[0]]" "[[255]]" "[[255]]" world_white "''a.png''"]
    a b c d extreme_white
  show ?thesis by (simp add: binary_def)
qed

text \<open>
  C10. Each pipeline that returns, returns the input path or its temp path, the temp path
  being the template of the source for the path's stem; a file changes only where that temp
  path leads and only when the temp path is what is returned; in the generator's result
  the candidates named \<^verbatim>\<open>conservative\<close> and \<^verbatim>\<open>extreme_enhancement\<close> carry their templates.
  No template is the input path, so the path returned for a produced artifact differs
  from the input.
\<close>

theorem temp_paths_follow_templates:
  "(preprocess_image_for_ocr env p w = (r1, w1) \<longrightarrow>
      ((r1 = Inr p \<or> (\<exists>e. r1 = Inl e)) \<and> fs w1 = fs w) \<or>
      (r1 = Inr (''temp_military_processed_'' @ stem p @ ''_ocr.png'') \<and>
       (\<forall>q. fs w1 q \<noteq> fs w q \<longrightarrow> q = resolve env (''temp_military_processed_'' @ stem p @ ''_ocr.png'')))) \<and>
   (preprocess_messaging_app_screenshot env p w = (r2, w2) \<longrightarrow>
      ((r2 = Inr p \<or> (\<exists>e. r2 = Inl e)) \<and> fs w2 = fs w) \<or>
      (r2 = Inr (''temp_messaging_processed_'' @ stem p @ ''_ocr.png'') \<and>
       (\<forall>q. fs w2 q \<noteq> fs w q \<longrightarrow> q = resolve env (''temp_messaging_processed_'' @ stem p @ ''_ocr.png'')))) \<and>
   (enhance_image_contrast env p w = (r5, w5) \<longrightarrow>
      ((r5 = Inr p \<or> (\<exists>e. r5 = Inl e)) \<and> fs w5 = fs w) \<or>
      (r5 = Inr (''temp_enhanced_'' @ stem p @ ''.png'') \<and>
       (\<forall>q. fs w5 q \<noteq> fs w q \<longrightarrow> q = resolve env (''temp_enhanced_'' @ stem p @ ''.png'')))) \<and>
   (preprocess_with_multiple_methods env p w = (Inr methods, wm) \<longrightarrow>
      (\<forall>t. (''conservative'', t) \<in> set methods \<longrightarrow> t = ''temp_'' @ stem p @ ''_conservative.png'') \<and>
      (\<forall>t. (''extreme_enhancement'', t) \<in> set methods \<longrightarrow> t = ''temp_'' @ stem p @ ''_extreme.png'')) \<and>
   ''temp_military_processed_'' @ stem p @ ''_ocr.png'' \<noteq> p \<and>
   ''temp_messaging_processed_'' @ stem p @ ''_ocr.png'' \<noteq> p \<and>
   ''temp_'' @ stem p @ ''_conservative.png'' \<noteq> p \<and>
   ''temp_'' @ stem p @ ''_extreme.png'' \<noteq> p \<and>
   ''temp_enhanced_'' @ stem p @ ''.png'' \<noteq> p"
proof -
  have a: "preprocess_image_for_ocr env p w = (r1, w1) \<longrightarrow>
      ((r1 = Inr p \<or> (\<exists>e. r1 = Inl e)) \<and> fs w1 = fs w) \<or>
      (r1 = Inr (temp_military p) \<and> (\<forall>q. fs w1 q \<noteq> fs w q \<longrightarrow> q = resolve env (temp_military p)))"
    using preprocess_image_for_ocr_cases [of env p w r1 w1] by auto
  have b: "preprocess_messaging_app_screenshot env p w = (r2, w2) \<longrightarrow>
      ((r2 = Inr p \<or> (\<exists>e. r2 = Inl e)) \<and> fs w2 = fs w) \<or>
      (r2 = Inr (temp_messaging p) \<and> (\<forall>q. fs w2 q \<noteq> fs w q \<longrightarrow> q = resolve env (temp_messaging p)))"
    using preprocess_messaging_app_screenshot_cases [of env p w r2 w2] by auto
  have c: "enhance_image_contrast env p w = (r5, w5) \<longrightarrow>
      ((r5 = Inr p \<or> (\<exists>e. r5 = Inl e)) \<and> fs w5 = fs w) \<or>
      (r5 = Inr (temp_enhanced p) \<and> (\<forall>q. fs w5 q \<noteq> fs w q \<longrightarrow> q = resolve env (temp_enhanced p)))"
    using enhance_image_contrast_cases [of env p w r5 w5] by auto
  have d: "preprocess_with_multiple_methods env p w = (Inr methods, wm) \<longrightarrow>
      (\<forall>t. (''conservative'', t) \<in> set methods \<longrightarrow> t = temp_conservative p) \<and>
      (\<forall>t. (''extreme_enhancement'', t) \<in> set methods \<longrightarrow> t = temp_extreme p)"
  proof
    assume g: "preprocess_with_multiple_methods env p w = (Inr methods, wm)"
    let ?B = "multiple_methods_body env p w"
    note k = multiple_methods_body_cases [OF prod.collapse [symmetric], of env p w]
    have rb: "raised (fst ?B, snd ?B) = raised ?B" by simp
    note k2 = k [THEN conjunct2, unfolded rb]
    from preprocess_with_multiple_methods_cases [OF g]
    consider (ok) "\<not> raised ?B" "fst ?B = Inr methods" | (failed) "methods = [(''original'', p)]"
      by (auto split: option.splits)
    then show "(\<forall>t. (''conservative'', t) \<in> set methods \<longrightarrow> t = temp_conservative p) \<and>
      (\<forall>t. (''extreme_enhancement'', t) \<in> set methods \<longrightarrow> t = temp_extreme p)"
    proof cases
      case ok
      from k2 ok(1) obtain t1 t2 where
        "fst ?B = Inr ([(''military_grade'', t1), (''messaging_specialized'', t2)] @
                    (if imread env (snd (preprocess_messaging_app_screenshot env p
                          (snd (preprocess_image_for_ocr env p w)))) p = None
                     then []
                     else [(''conservative'', temp_conservative p),
                           (''extreme_enhancement'', temp_extreme p)]))"
        by auto
      with ok(2) have "methods = [(''military_grade'', t1), (''messaging_specialized'', t2)] @
                    (if imread env (snd (preprocess_messaging_app_screenshot env p
                          (snd (preprocess_image_for_ocr env p w)))) p = None
                     then []
                     else [(''conservative'', temp_conservative p),
                           (''extreme_enhancement'', temp_extreme p)])"
        by simp
      then show ?thesis by (simp split: if_splits)
    next
      case failed
      then show ?thesis by simp
    qed
  qed
  from a b c d temp_names_differ [of p] show ?thesis
    unfolding temp_military_def temp_messaging_def temp_conservative_def temp_extreme_def
      temp_enhanced_def
    by simp
qed

theorem temp_paths_follow_templates_witness:
  "preprocess_image_for_ocr env0 ''a.png'' world_white =
     (Inr ''temp_military_processed_a_ocr.png'',
      world_white\<lparr>fs := (fs world_white)(''temp_military_processed_a_ocr.png'' \<mapsto> Gray [[0]])\<rparr>) \<and>
   preprocess_messaging_app_screenshot env0 ''a.png'' world_white =
     (Inr ''temp_messaging_processed_a_ocr.png'',
      world_white\<lparr>fs := (fs world_white)(''temp_messaging_processed_a_ocr.png'' \<mapsto> Gray [[0]])\<rparr>) \<and>
   enhance_image_contrast env0 ''a.png'' world_white =
     (Inr ''temp_enhanced_a.png'',
      world_white\<lparr>fs := (fs world_white)(''temp_enhanced_a.png'' \<mapsto> Gray [[255]])\<rparr>) \<and>
   fst (preprocess_with_multiple_methods env0 ''a.png'' world_white) =
     Inr [(''military_grade'', ''temp_military_processed_a_ocr.png''),
        (''messaging_specialized'', ''temp_messaging_processed_a_ocr.png''),
        (''conservative'', ''temp_a_conservative.png''),
        (''extreme_enhancement'', ''temp_a_extreme.png'')] \<and>
   ''temp_military_processed_'' @ stem ''a.png'' @ ''_ocr.png'' \<noteq> ''a.png'' \<and>
   ''temp_'' @ stem ''a.png'' @ ''_conservative.png'' = ''temp_a_conservative.png''"
proof -
  let ?g = "preprocess_with_multiple_methods env0 ''a.png'' world_white"
  let ?ms = "[(''military_grade'', ''temp_military_processed_a_ocr.png''),
        (''messaging_specialized'', ''temp_messaging_processed_a_ocr.png''),
        (''conservative'', ''temp_a_conservative.png''),
        (''extreme_enhancement'', ''temp_a_extreme.png'')]"
  have a: "preprocess_image_for_ocr env0 ''a.png'' world_white =
     (Inr ''temp_military_processed_a_ocr.png'',
      world_white\<lparr>fs := (fs world_white)(''temp_military_processed_a_ocr.png'' \<mapsto> Gray [[0]])\<rparr>)"
    using military_run [OF imread_white, of identity_filter print_works] by (simp only: env0_variant)
  have b: "preprocess_messaging_app_screenshot env0 ''a.png'' world_white =
     (Inr ''temp_messaging_processed_a_ocr.png'',
      world_white\<lparr>fs := (fs world_white)(''temp_messaging_processed_a_ocr.png'' \<mapsto> Gray [[0]])\<rparr>)"
    using messaging_run [OF imread_white, of identity_filter print_works] by (simp only: env0_variant)
  have c: "enhance_image_contrast env0 ''a.png'' world_white =
     (Inr ''temp_enhanced_a.png'',
      world_white\<lparr>fs := (fs world_white)(''temp_enhanced_a.png'' \<mapsto> Gray [[255]])\<rparr>)"
    by (simp add: enhance_image_contrast_def try_except_def Image_open_def world_white_def env0_def
        bind_e_def stem_a Let_def)
  have f: "fst ?g = Inr ?ms"
    using generator_white_all by (rule conjunct1)
  have d: "?g = (Inr ?ms, snd ?g)"
    by (subst f [symmetric]) simp
  note t = temp_paths_follow_templates [of env0 "''a.png''" world_white _ _ _ _ _ _ ?ms "snd ?g"]
  note t4 = t [THEN conjunct2, THEN conjunct2, THEN conjunct2]
  have e: "''temp_military_processed_'' @ stem ''a.png'' @ ''_ocr.png'' \<noteq> ''a.png''"
    by (rule t4 [THEN conjunct2, THEN conjunct1])
  have g: "\<forall>t. (''conservative'', t) \<in> set ?ms \<longrightarrow>
      t = ''temp_'' @ stem ''a.png'' @ ''_conservative.png''"
    by (rule t4 [THEN conjunct1, THEN mp, OF d, THEN conjunct1])
  then have h: "''temp_'' @ stem ''a.png'' @ ''_conservative.png'' = ''temp_a_conservative.png''"
    by simp
  from a b c f e h show ?thesis by (intro conjI)
qed

section \<open>The combined binarization\<close>

lemma same_size_length: "same_size a b \<Longrightarrow> length a = length b"
  unfolding same_size_def by (rule map_eq_imp_length_eq)

lemma same_size_row: "same_size a b \<Longrightarrow> y < length a \<Longrightarrow> length (a ! y) = length (b ! y)"
proof -
  assume s: "same_size a b" and y: "y < length a"
  have "map length a ! y = map length b ! y" using s by (simp add: same_size_def)
  with y same_size_length [OF s] show ?thesis by simp
qed

lemma same_size_rows: "map (\<lambda>y. length (src ! y)) [0..<length src] = map length src"
  by (rule nth_equalityI) simp_all


lemma same_size_trans: "same_size a b \<Longrightarrow> same_size b c \<Longrightarrow> same_size a c"
  by (simp add: same_size_def)

lemma same_size_sym: "same_size a b \<Longrightarrow> same_size b a"
  by (simp add: same_size_def)

lemma same_size_threshold: "same_size (threshold src thresh maxval ty) src"
  by (simp add: same_size_def threshold_def comp_def)

lemma same_size_adaptiveThreshold: "same_size (adaptiveThreshold env src maxValue blockSize C) src"
  by (simp add: same_size_def adaptiveThreshold_def comp_def same_size_rows)

lemma map2_nth:
  "y < length a \<Longrightarrow> y < length b \<Longrightarrow> map2 f a b ! y = f (a ! y) (b ! y)"
  by simp

lemma same_size_map2:
  assumes "same_size a b"
  shows "same_size (map2 (map2 f) a b) a"
proof -
  have "length (map2 (map2 f) a b) = length a"
    using same_size_length [OF assms] by simp
  moreover have "length (map2 (map2 f) a b ! y) = length (a ! y)" if "y < length a" for y
    using that same_size_length [OF assms] same_size_row [OF assms that] by simp
  ultimately show ?thesis
    unfolding same_size_def by (intro nth_equalityI) simp_all
qed

lemma map2_map2_nth:
  assumes "same_size a b" "y < length a" "x < length (a ! y)"
  shows "map2 (map2 f) a b ! y ! x = f (a ! y ! x) (b ! y ! x)"
  using assms same_size_length [OF assms(1)] same_size_row [OF assms(1,2)] by simp

lemma threshold_nth:
  "y < length src \<Longrightarrow> x < length (src ! y) \<Longrightarrow>
     threshold src thresh maxval ty ! y ! x =
       (case ty of THRESH_BINARY \<Rightarrow> if unat (src ! y ! x) > thresh then maxval else 0
                 | THRESH_BINARY_INV \<Rightarrow> if unat (src ! y ! x) > thresh then 0 else maxval)"
  by (simp add: threshold_def)

lemma adaptiveThreshold_nth:
  "y < length src \<Longrightarrow> x < length (src ! y) \<Longrightarrow>
     adaptiveThreshold env src maxValue blockSize C ! y ! x =
       (if int (unat (src ! y ! x)) - int (unat (gaussian_mean env blockSize src y x)) > - C
        then maxValue else 0)"
  by (simp add: adaptiveThreshold_def)

lemma or_255_iff:
  "(u = 0 \<or> u = (255 :: pixel)) \<Longrightarrow> (v = 0 \<or> v = 255) \<Longrightarrow> (u OR v = 255) = (u = 255 \<or> v = 255)"
  by auto

text \<open>
  C2. The two binarizations of the enhanced image, Otsu's non-inverted threshold and the
  adaptive Gaussian threshold with window 11 and constant 2, have the size of the image,
  so \<^verbatim>\<open>cv2.bitwise_or\<close> does not raise; at every pixel the combined image is 255 exactly
  when at least one of the two binarizations is 255 there, and 0 otherwise.
\<close>

theorem combined_is_pixelwise_or:
  assumes "y < length enhanced" and "x < length (enhanced ! y)"
  shows "\<exists>combined. binarize_combined env enhanced = Inr combined \<and> same_size combined enhanced \<and>
     (combined ! y ! x = 255) =
       (threshold enhanced (otsu env enhanced) 255 THRESH_BINARY ! y ! x = 255 \<or>
        adaptiveThreshold env enhanced 255 11 2 ! y ! x = 255) \<and>
     (combined ! y ! x = 0 \<or> combined ! y ! x = 255) \<and>
     (threshold enhanced (otsu env enhanced) 255 THRESH_BINARY ! y ! x = 255) =
       (unat (enhanced ! y ! x) > otsu env enhanced) \<and>
     (adaptiveThreshold env enhanced 255 11 2 ! y ! x = 255) =
       (int (unat (enhanced ! y ! x)) - int (unat (gaussian_mean env 11 enhanced y x)) > - 2)"
proof -
  let ?b1 = "threshold enhanced (otsu env enhanced) 255 THRESH_BINARY"
  let ?b2 = "adaptiveThreshold env enhanced 255 11 2"
  let ?c = "map2 (map2 (\<lambda>u v. u OR v)) ?b1 ?b2"
  have s12: "same_size ?b1 ?b2"
    using same_size_threshold same_size_sym [OF same_size_adaptiveThreshold]
    by (rule same_size_trans)
  then have run: "binarize_combined env enhanced = Inr ?c"
    by (simp add: binarize_combined_def bitwise_or_def)
  have sc: "same_size ?c enhanced"
    using same_size_map2 [OF s12] same_size_threshold by (rule same_size_trans)
  have y1: "y < length ?b1" and x1: "x < length (?b1 ! y)"
    using assms same_size_length [OF same_size_threshold, of enhanced]
      same_size_row [OF same_size_threshold, of y enhanced] by simp_all
  have px: "?c ! y ! x = ?b1 ! y ! x OR ?b2 ! y ! x"
    using s12 y1 x1 by (rule map2_map2_nth)
  have v1: "?b1 ! y ! x = (if unat (enhanced ! y ! x) > otsu env enhanced then 255 else 0)"
    using assms by (simp add: threshold_nth)
  have v2: "?b2 ! y ! x =
      (if int (unat (enhanced ! y ! x)) - int (unat (gaussian_mean env 11 enhanced y x)) > - 2
       then 255 else 0)"
    using assms by (simp add: adaptiveThreshold_nth)
  have b1: "?b1 ! y ! x = 0 \<or> ?b1 ! y ! x = 255" by (simp only: v1 if_split) simp
  have b2: "?b2 ! y ! x = 0 \<or> ?b2 ! y ! x = 255" by (simp only: v2 if_split) simp
  have iff: "(?c ! y ! x = 255) = (?b1 ! y ! x = 255 \<or> ?b2 ! y ! x = 255)"
    unfolding px using b1 b2 by (rule or_255_iff)
  have bin: "?c ! y ! x = 0 \<or> ?c ! y ! x = 255"
    unfolding px using b1 b2 by auto
  have e1: "(?b1 ! y ! x = 255) = (unat (enhanced ! y ! x) > otsu env enhanced)"
    by (simp only: v1) simp
  have e2: "(?b2 ! y ! x = 255) =
      (int (unat (enhanced ! y ! x)) - int (unat (gaussian_mean env 11 enhanced y x)) > - 2)"
    by (simp only: v2) simp
  from run sc iff bin e1 e2 show ?thesis by blast
qed

theorem combined_is_pixelwise_or_witness:
  "(0 :: nat) < length [[200 :: pixel, 100]] \<and> (1 :: nat) < length ([[200 :: pixel, 100]] ! 0) \<and>
   binarize_combined env0 [[200, 100]] = Inr [[255, 255]] \<and>
   threshold [[200, 100]] (otsu env0 [[200, 100]]) 255 THRESH_BINARY ! 0 ! 1 = 0 \<and>
   adaptiveThreshold env0 [[200, 100]] 255 11 2 ! 0 ! 1 = 255"
proof -
  have a: "(0 :: nat) < length [[200 :: pixel, 100]]" by simp
  have b: "(1 :: nat) < length ([[200 :: pixel, 100]] ! 0)" by simp
  have c: "binarize_combined env0 [[200, 100]] = Inr [[255, 255]]"
    by (simp add: binarize_combined_def threshold_def adaptiveThreshold_def env0_def bitwise_or_def
        same_size_def upt_rec)
  have d: "threshold [[200, 100]] (otsu env0 [[200, 100]]) 255 THRESH_BINARY ! 0 ! 1 = 0"
    by (simp add: threshold_def env0_def)
  have e: "adaptiveThreshold env0 [[200, 100]] 255 11 2 ! 0 ! 1 = 255"
    by (simp add: adaptiveThreshold_def env0_def upt_rec)
  from combined_is_pixelwise_or [OF a b, of env0] a b c d e show ?thesis by simp
qed

section \<open>Small-blob removal\<close>







section \<open>Openings with a rectangular element\<close>

lemma fold_min_255_iff:
  "(fold min vs a = (255 :: pixel)) = (a = 255 \<and> (\<forall>v \<in> set vs. v = 255))"
proof (induction vs arbitrary: a)
  case Nil
  then show ?case by simp
next
  case (Cons v vs)
  have "(min v a = 255) = (v = 255 \<and> a = 255)"
    using pixel_le_255 [of v] pixel_le_255 [of a] by (auto simp: min_def)
  with Cons.IH [of "min v a"] show ?case by auto
qed

lemma fold_max_0_iff:
  "(fold max vs a = (0 :: pixel)) = (a = 0 \<and> (\<forall>v \<in> set vs. v = 0))"
proof (induction vs arbitrary: a)
  case Nil
  then show ?case by simp
next
  case (Cons v vs)
  have "(max v a = 0) = (v = 0 \<and> a = 0)"
    by (auto simp: max_def)
  with Cons.IH [of "max v a"] show ?case by auto
qed

lemma fold_min_0: "a = 0 \<or> 0 \<in> set vs \<Longrightarrow> fold min vs a = (0 :: pixel)"
proof (induction vs arbitrary: a)
  case Nil
  then show ?case by simp
next
  case (Cons v vs)
  from Cons.prems have "min v a = 0 \<or> 0 \<in> set vs" by (auto simp: min_def)
  from Cons.IH [OF this] show ?case by simp
qed

lemma fold_max_255: "a = 255 \<or> 255 \<in> set vs \<Longrightarrow> fold max vs a = (255 :: pixel)"
proof (induction vs arbitrary: a)
  case Nil
  then show ?case by simp
next
  case (Cons v vs)
  have "max v a = 255" if "v = 255 \<or> a = 255"
    using that pixel_le_255 [of v] pixel_le_255 [of a] by (auto simp: max_def)
  with Cons.prems have "max v a = 255 \<or> 255 \<in> set vs" by auto
  from Cons.IH [OF this] show ?case by simp
qed

lemma window_bound: "j \<in> set (window n k i) \<Longrightarrow> j < n"
  by (simp add: window_set)

lemma erode_255:
  assumes "cy < length img" "cx < length (img ! cy)"
    and "\<And>yy xx. yy \<in> set (window (length img) (fst k) cy) \<Longrightarrow>
           xx \<in> set (window (length (img ! yy)) (snd k) cx) \<Longrightarrow> img ! yy ! xx = 255"
  shows "erode img k ! cy ! cx = 255"
  using assms(3) by (auto simp: erode_nth [OF assms(1,2)] fold_min_255_iff neighbourhood_set)

lemma erode_0:
  assumes "cy < length img" "cx < length (img ! cy)"
    and "yy \<in> set (window (length img) (fst k) cy)"
    and "xx \<in> set (window (length (img ! yy)) (snd k) cx)"
    and "img ! yy ! xx = 0"
  shows "erode img k ! cy ! cx = 0"
proof -
  have "0 \<in> set (neighbourhood img k cy cx)"
    unfolding neighbourhood_set using assms(3,4,5) by force
  then show ?thesis by (simp add: erode_nth [OF assms(1,2)] fold_min_0)
qed

lemma dilate_255:
  assumes "y < length img" "x < length (img ! y)"
    and "cy \<in> set (window (length img) (fst k) y)"
    and "cx \<in> set (window (length (img ! cy)) (snd k) x)"
    and "img ! cy ! cx = 255"
  shows "dilate img k ! y ! x = 255"
proof -
  have "255 \<in> set (neighbourhood img k y x)"
    unfolding neighbourhood_set using assms(3,4,5) by force
  then show ?thesis by (simp add: dilate_nth [OF assms(1,2)] fold_max_255)
qed

lemma dilate_0:
  assumes "y < length img" "x < length (img ! y)"
    and "\<And>cy cx. cy \<in> set (window (length img) (fst k) y) \<Longrightarrow>
           cx \<in> set (window (length (img ! cy)) (snd k) x) \<Longrightarrow> img ! cy ! cx = 0"
  shows "dilate img k ! y ! x = 0"
  using assms(3) by (auto simp: dilate_nth [OF assms(1,2)] fold_max_0_iff neighbourhood_set)

text \<open>
  An opening is 255 at a pixel when some window that contains the pixel is entirely 255,
  and 0 when every window that contains the pixel holds a 0.
\<close>

lemma opening_255:
  assumes "y < length img" "x < length (img ! y)"
    and "cy \<in> set (window (length img) (fst k) y)"
    and "cx \<in> set (window (length (img ! cy)) (snd k) x)"
    and "\<And>yy xx. yy \<in> set (window (length img) (fst k) cy) \<Longrightarrow>
           xx \<in> set (window (length (img ! yy)) (snd k) cx) \<Longrightarrow> img ! yy ! xx = 255"
  shows "morphologyEx img MORPH_OPEN k ! y ! x = 255"
proof -
  have cy: "cy < length img" using assms(3) by (rule window_bound)
  have cx: "cx < length (img ! cy)" using assms(4) by (rule window_bound)
  have e: "erode img k ! cy ! cx = 255" using cy cx assms(5) by (rule erode_255)
  have "dilate (erode img k) k ! y ! x = 255"
    using assms(1,2,3,4) cy e by (intro dilate_255 [where cy = cy and cx = cx]) simp_all
  then show ?thesis by (simp add: morphologyEx_def)
qed

lemma opening_0:
  assumes "y < length img" "x < length (img ! y)"
    and "\<And>cy cx. cy \<in> set (window (length img) (fst k) y) \<Longrightarrow>
           cx \<in> set (window (length (img ! cy)) (snd k) x) \<Longrightarrow>
           \<exists>yy \<in> set (window (length img) (fst k) cy).
             \<exists>xx \<in> set (window (length (img ! yy)) (snd k) cx). img ! yy ! xx = 0"
  shows "morphologyEx img MORPH_OPEN k ! y ! x = 0"
proof -
  have "erode img k ! cy ! cx = 0"
    if a: "cy \<in> set (window (length (erode img k)) (fst k) y)"
      and b: "cx \<in> set (window (length (erode img k ! cy)) (snd k) x)" for cy cx
  proof -
    have cy: "cy < length img" using a by (simp add: window_set)
    have cx: "cx < length (img ! cy)" using b cy by (simp add: window_set)
    from a have a': "cy \<in> set (window (length img) (fst k) y)" by simp
    from b cy have b': "cx \<in> set (window (length (img ! cy)) (snd k) x)" by simp
    from assms(3) [OF a' b'] obtain yy xx where
      "yy \<in> set (window (length img) (fst k) cy)"
      "xx \<in> set (window (length (img ! yy)) (snd k) cx)" "img ! yy ! xx = 0" by blast
    with cy cx show ?thesis by (rule erode_0)
  qed
  then have "dilate (erode img k) k ! y ! x = 0"
    using assms(1,2) by (intro dilate_0) simp_all
  then show ?thesis by (simp add: morphologyEx_def)
qed

lemma same_size_erode: "same_size (erode img k) img"
  by (simp add: same_size_def erode_def comp_def same_size_rows)

lemma same_size_dilate: "same_size (dilate img k) img"
  by (simp add: same_size_def dilate_def comp_def same_size_rows)

lemma same_size_morphologyEx: "same_size (morphologyEx img op k) img"
  by (cases op)
     (auto simp: morphologyEx_def intro: same_size_trans same_size_erode same_size_dilate)

section \<open>Removing the lines of the chat interface\<close>

lemma remove_ui_lines_pixels:
  "\<exists>p1 out.
     subtract processed (morphologyEx processed MORPH_OPEN (getStructuringElement_RECT (25, 1))) = Inr p1 \<and>
     remove_ui_lines processed = Inr out \<and>
     same_size p1 processed \<and> same_size out processed \<and>
     (\<forall>y x. y < length processed \<and> x < length (processed ! y) \<longrightarrow>
        p1 ! y ! x =
          (if morphologyEx processed MORPH_OPEN (getStructuringElement_RECT (25, 1)) ! y ! x
                \<le> processed ! y ! x
           then processed ! y ! x
                  - morphologyEx processed MORPH_OPEN (getStructuringElement_RECT (25, 1)) ! y ! x
           else 0) \<and>
        out ! y ! x =
          (if morphologyEx processed MORPH_OPEN (getStructuringElement_RECT (1, 25)) ! y ! x
                \<le> p1 ! y ! x
           then p1 ! y ! x
                  - morphologyEx processed MORPH_OPEN (getStructuringElement_RECT (1, 25)) ! y ! x
           else 0))"
proof -
  let ?h = "morphologyEx processed MORPH_OPEN (getStructuringElement_RECT (25, 1))"
  let ?v = "morphologyEx processed MORPH_OPEN (getStructuringElement_RECT (1, 25))"
  let ?sat = "\<lambda>(u :: pixel) v. if v \<le> u then u - v else 0"
  let ?p1 = "map2 (map2 ?sat) processed ?h"
  let ?out = "map2 (map2 ?sat) ?p1 ?v"
  have sh: "same_size processed ?h" by (rule same_size_sym [OF same_size_morphologyEx])
  have sv: "same_size processed ?v" by (rule same_size_sym [OF same_size_morphologyEx])
  have s1: "same_size ?p1 processed" using sh by (rule same_size_map2)
  have s1v: "same_size ?p1 ?v" using s1 sv by (rule same_size_trans)
  have so: "same_size ?out processed" using same_size_map2 [OF s1v] s1 by (rule same_size_trans)
  have r1: "subtract processed ?h = Inr ?p1" using sh by (simp add: subtract_def)
  have r2: "subtract ?p1 ?v = Inr ?out" using s1v by (simp add: subtract_def)
  have run: "remove_ui_lines processed = Inr ?out"
    unfolding remove_ui_lines_def Let_def by (simp only: r1 bind_e_def sum.case r2)
  have px: "?p1 ! y ! x = ?sat (processed ! y ! x) (?h ! y ! x) \<and>
            ?out ! y ! x = ?sat (?p1 ! y ! x) (?v ! y ! x)"
    if yx: "y < length processed" "x < length (processed ! y)" for y x
  proof -
    have a: "?p1 ! y ! x = ?sat (processed ! y ! x) (?h ! y ! x)"
      using sh yx by (rule map2_map2_nth)
    have y1: "y < length ?p1" using yx(1) same_size_length [OF s1] by simp
    have x1: "x < length (?p1 ! y)" using yx(2) same_size_row [OF s1 y1] by simp
    have b: "?out ! y ! x = ?sat (?p1 ! y ! x) (?v ! y ! x)"
      using s1v y1 x1 by (rule map2_map2_nth)
    from a b show ?thesis by (rule conjI)
  qed
  from r1 run s1 so px show ?thesis by blast
qed

lemma horizontal_run_opened:
  assumes y: "y < length img" and fit: "a + n \<le> length (img ! y)" and n: "25 \<le> n"
    and run: "\<And>x. a \<le> x \<Longrightarrow> x < a + n \<Longrightarrow> img ! y ! x = 255"
    and x: "a \<le> x" "x < a + n"
  shows "morphologyEx img MORPH_OPEN (getStructuringElement_RECT (25, 1)) ! y ! x = 255"
proof -
  define cx where "cx = (if x < a + 12 then a + 12 else if a + n \<le> x + 12 then a + n - 13 else x)"
  have c: "a + 12 \<le> cx" "cx + 13 \<le> a + n" "x \<le> cx + 12" "cx < x + 13"
    using n x by (auto simp: cx_def)
  show ?thesis
  proof (rule opening_255 [where cy = y and cx = cx])
    show "y < length img" by (rule y)
    show "x < length (img ! y)" using x fit by simp
    show "y \<in> set (window (length img) (fst (getStructuringElement_RECT (25, 1))) y)"
      using y by (simp add: window_set getStructuringElement_RECT_def)
    show "cx \<in> set (window (length (img ! y)) (snd (getStructuringElement_RECT (25, 1))) x)"
      using c fit by (simp add: window_set getStructuringElement_RECT_def)
  next
    fix yy xx
    assume "yy \<in> set (window (length img) (fst (getStructuringElement_RECT (25, 1))) y)"
    then have yy: "yy = y" by (simp add: window_set getStructuringElement_RECT_def)
    assume "xx \<in> set (window (length (img ! yy)) (snd (getStructuringElement_RECT (25, 1))) cx)"
    then have "a \<le> xx" "xx < a + n"
      using c by (simp_all add: window_set getStructuringElement_RECT_def)
    then show "img ! yy ! xx = 255" unfolding yy by (rule run)
  qed
qed

lemma vertical_run_opened:
  assumes fit: "b + m \<le> length img" and m: "25 \<le> m"
    and run: "\<And>y. b \<le> y \<Longrightarrow> y < b + m \<Longrightarrow> x < length (img ! y) \<and> img ! y ! x = 255"
    and y: "b \<le> y" "y < b + m"
  shows "morphologyEx img MORPH_OPEN (getStructuringElement_RECT (1, 25)) ! y ! x = 255"
proof -
  define cy where "cy = (if y < b + 12 then b + 12 else if b + m \<le> y + 12 then b + m - 13 else y)"
  have c: "b + 12 \<le> cy" "cy + 13 \<le> b + m" "y \<le> cy + 12" "cy < y + 13"
    using m y by (auto simp: cy_def)
  have cyr: "x < length (img ! cy)" using run [of cy] c by simp
  show ?thesis
  proof (rule opening_255 [where cy = cy and cx = x])
    show "y < length img" using y fit by simp
    show "x < length (img ! y)" using run [OF y] by simp
    show "cy \<in> set (window (length img) (fst (getStructuringElement_RECT (1, 25))) y)"
      using c fit by (simp add: window_set getStructuringElement_RECT_def)
    show "x \<in> set (window (length (img ! cy)) (snd (getStructuringElement_RECT (1, 25))) x)"
      using cyr by (simp add: window_set getStructuringElement_RECT_def)
  next
    fix yy xx
    assume "yy \<in> set (window (length img) (fst (getStructuringElement_RECT (1, 25))) cy)"
    then have yy: "b \<le> yy" "yy < b + m"
      using c by (simp_all add: window_set getStructuringElement_RECT_def)
    assume "xx \<in> set (window (length (img ! yy)) (snd (getStructuringElement_RECT (1, 25))) x)"
    then have "xx = x" by (simp add: window_set getStructuringElement_RECT_def)
    then show "img ! yy ! xx = 255" using run [OF yy] by simp
  qed
qed

lemma short_horizontal_run_not_opened:
  assumes y: "y < length img" and a: "0 < a" and fit: "a + n < length (img ! y)" and n: "n < 25"
    and left: "img ! y ! (a - 1) = 0" and right: "img ! y ! (a + n) = 0"
    and x: "a \<le> x" "x < a + n"
  shows "morphologyEx img MORPH_OPEN (getStructuringElement_RECT (25, 1)) ! y ! x = 0"
proof (rule opening_0)
  show "y < length img" by (rule y)
  show "x < length (img ! y)" using x fit by simp
next
  fix cy cx
  assume "cy \<in> set (window (length img) (fst (getStructuringElement_RECT (25, 1))) y)"
  then have cy: "cy = y" by (simp add: window_set getStructuringElement_RECT_def)
  assume "cx \<in> set (window (length (img ! cy)) (snd (getStructuringElement_RECT (25, 1))) x)"
  then have cx: "x \<le> cx + 12" "cx < x + 13"
    by (simp_all add: window_set getStructuringElement_RECT_def)
  define xx where "xx = (if cx \<le> a + 11 then a - 1 else a + n)"
  have w: "xx < length (img ! y)" "cx \<le> xx + 12" "xx < cx + 13"
    using a fit n x cx by (auto simp: xx_def)
  have z: "img ! y ! xx = 0" using left right by (simp add: xx_def)
  have "y \<in> set (window (length img) (fst (getStructuringElement_RECT (25, 1))) cy)"
    using y cy by (simp add: window_set getStructuringElement_RECT_def)
  moreover have "xx \<in> set (window (length (img ! y)) (snd (getStructuringElement_RECT (25, 1))) cx)"
    using w by (simp add: window_set getStructuringElement_RECT_def)
  ultimately show "\<exists>yy \<in> set (window (length img) (fst (getStructuringElement_RECT (25, 1))) cy).
      \<exists>xx \<in> set (window (length (img ! yy)) (snd (getStructuringElement_RECT (25, 1))) cx).
        img ! yy ! xx = 0"
    using z by blast
qed

lemma short_vertical_run_not_opened:
  assumes b: "0 < b" and fit: "b + m < length img" and m: "m < 25"
    and top: "x < length (img ! (b - 1))" "img ! (b - 1) ! x = 0"
    and bottom: "x < length (img ! (b + m))" "img ! (b + m) ! x = 0"
    and y: "b \<le> y" "y < b + m" and xr: "x < length (img ! y)"
  shows "morphologyEx img MORPH_OPEN (getStructuringElement_RECT (1, 25)) ! y ! x = 0"
proof (rule opening_0)
  show "y < length img" using y fit by simp
  show "x < length (img ! y)" by (rule xr)
next
  fix cy cx
  assume "cy \<in> set (window (length img) (fst (getStructuringElement_RECT (1, 25))) y)"
  then have cy: "y \<le> cy + 12" "cy < y + 13"
    by (simp_all add: window_set getStructuringElement_RECT_def)
  assume "cx \<in> set (window (length (img ! cy)) (snd (getStructuringElement_RECT (1, 25))) x)"
  then have cx: "cx = x" by (simp add: window_set getStructuringElement_RECT_def)
  define yy where "yy = (if cy \<le> b + 11 then b - 1 else b + m)"
  have w: "yy < length img" "cy \<le> yy + 12" "yy < cy + 13"
    using b fit m y cy by (auto simp: yy_def)
  have z: "x < length (img ! yy)" "img ! yy ! x = 0"
    using top bottom by (simp_all add: yy_def)
  have "yy \<in> set (window (length img) (fst (getStructuringElement_RECT (1, 25))) cy)"
    using w by (simp add: window_set getStructuringElement_RECT_def)
  moreover have "x \<in> set (window (length (img ! yy)) (snd (getStructuringElement_RECT (1, 25))) cx)"
    using z(1) cx by (simp add: window_set getStructuringElement_RECT_def)
  ultimately show "\<exists>yy \<in> set (window (length img) (fst (getStructuringElement_RECT (1, 25))) cy).
      \<exists>xx \<in> set (window (length (img ! yy)) (snd (getStructuringElement_RECT (1, 25))) cx).
        img ! yy ! xx = 0"
    using z(2) by blast
qed

text \<open>
  C7, as the code has it. The two subtractions never raise and keep the size of the
  image. In the output, every pixel of a solid horizontal run of 255 at least 25 wide is
  0, and so is every pixel of a solid vertical run of 255 at least 25 tall. A horizontal
  stretch of fewer than 25 pixels that has a 0 pixel of the image directly before it and
  directly after it is left unchanged by the subtraction of the horizontal lines, and a
  vertical stretch of fewer than 25 pixels with a 0 pixel directly above and directly
  below is left unchanged by the subtraction of the vertical lines. (A stretch that
  reaches the border of the image has no such pixel on that side: positions outside the
  image do not count in the erosion.)
\<close>

theorem ui_lines_removed:
  "\<exists>p1 out.
     subtract processed (morphologyEx processed MORPH_OPEN (getStructuringElement_RECT (25, 1))) = Inr p1 \<and>
     remove_ui_lines processed = Inr out \<and> same_size out processed \<and>
     (y < length processed \<and> a + n \<le> length (processed ! y) \<and> 25 \<le> n \<and>
      (\<forall>x. a \<le> x \<and> x < a + n \<longrightarrow> processed ! y ! x = 255)
        \<longrightarrow> (\<forall>x. a \<le> x \<and> x < a + n \<longrightarrow> out ! y ! x = 0)) \<and>
     (b + m \<le> length processed \<and> 25 \<le> m \<and>
      (\<forall>y. b \<le> y \<and> y < b + m \<longrightarrow> xv < length (processed ! y) \<and> processed ! y ! xv = 255)
        \<longrightarrow> (\<forall>y. b \<le> y \<and> y < b + m \<longrightarrow> out ! y ! xv = 0)) \<and>
     (ys < length processed \<and> 0 < as \<and> as + ns < length (processed ! ys) \<and> ns < 25 \<and>
      processed ! ys ! (as - 1) = 0 \<and> processed ! ys ! (as + ns) = 0
        \<longrightarrow> (\<forall>x. as \<le> x \<and> x < as + ns \<longrightarrow> p1 ! ys ! x = processed ! ys ! x)) \<and>
     (0 < bs \<and> bs + ms < length processed \<and> ms < 25 \<and>
      xs < length (processed ! (bs - 1)) \<and> processed ! (bs - 1) ! xs = 0 \<and>
      xs < length (processed ! (bs + ms)) \<and> processed ! (bs + ms) ! xs = 0
        \<longrightarrow> (\<forall>y. bs \<le> y \<and> y < bs + ms \<and> xs < length (processed ! y) \<longrightarrow> out ! y ! xs = p1 ! y ! xs))"
proof -
  let ?h = "morphologyEx processed MORPH_OPEN (getStructuringElement_RECT (25, 1))"
  let ?v = "morphologyEx processed MORPH_OPEN (getStructuringElement_RECT (1, 25))"
  from remove_ui_lines_pixels [of processed] obtain p1 out where
    r1: "subtract processed ?h = Inr p1" and run: "remove_ui_lines processed = Inr out" and
    s1: "same_size p1 processed" and so: "same_size out processed" and
    px: "\<And>y x. y < length processed \<Longrightarrow> x < length (processed ! y) \<Longrightarrow>
        p1 ! y ! x = (if ?h ! y ! x \<le> processed ! y ! x then processed ! y ! x - ?h ! y ! x else 0) \<and>
        out ! y ! x = (if ?v ! y ! x \<le> p1 ! y ! x then p1 ! y ! x - ?v ! y ! x else 0)"
    by blast
  have hrun: "out ! y ! x = 0"
    if h: "y < length processed" "a + n \<le> length (processed ! y)" "25 \<le> n"
      "\<forall>x. a \<le> x \<and> x < a + n \<longrightarrow> processed ! y ! x = 255"
      and x: "a \<le> x" "x < a + n" for x
  proof -
    have "?h ! y ! x = 255"
      using h(1,2,3) _ x by (rule horizontal_run_opened) (use h(4) in blast)
    moreover have "processed ! y ! x = 255" using h(4) x by blast
    moreover have "x < length (processed ! y)" using x h(2) by simp
    ultimately have "p1 ! y ! x = 0" using px [OF h(1)] by simp
    then show ?thesis using px [OF h(1) \<open>x < length (processed ! y)\<close>] by auto
  qed
  have vrun: "out ! y ! xv = 0"
    if h: "b + m \<le> length processed" "25 \<le> m"
      "\<forall>y. b \<le> y \<and> y < b + m \<longrightarrow> xv < length (processed ! y) \<and> processed ! y ! xv = 255"
      and y: "b \<le> y" "y < b + m" for y
  proof -
    have v: "?v ! y ! xv = 255"
      using h(1,2) _ y by (rule vertical_run_opened) (use h(3) in blast)
    have yl: "y < length processed" using y h(1) by simp
    have xl: "xv < length (processed ! y)" using h(3) y by blast
    have "p1 ! y ! xv \<le> 255" by (rule pixel_le_255)
    then show ?thesis using px [OF yl xl] v by auto
  qed
  have hshort: "p1 ! ys ! x = processed ! ys ! x"
    if h: "ys < length processed" "0 < as" "as + ns < length (processed ! ys)" "ns < 25"
      "processed ! ys ! (as - 1) = 0" "processed ! ys ! (as + ns) = 0"
      and x: "as \<le> x" "x < as + ns" for x
  proof -
    have "?h ! ys ! x = 0" using h x by (rule short_horizontal_run_not_opened)
    moreover have "x < length (processed ! ys)" using x h(3) by simp
    ultimately show ?thesis using px [OF h(1)] by simp
  qed
  have vshort: "out ! y ! xs = p1 ! y ! xs"
    if h: "0 < bs" "bs + ms < length processed" "ms < 25"
      "xs < length (processed ! (bs - 1))" "processed ! (bs - 1) ! xs = 0"
      "xs < length (processed ! (bs + ms))" "processed ! (bs + ms) ! xs = 0"
      and y: "bs \<le> y" "y < bs + ms" "xs < length (processed ! y)" for y
  proof -
    have "?v ! y ! xs = 0" using h y by (rule short_vertical_run_not_opened)
    moreover have "y < length processed" using y h(2) by simp
    ultimately show ?thesis using px [OF _ y(3)] by simp
  qed
  show ?thesis
  proof (intro exI conjI impI allI)
    show "subtract processed ?h = Inr p1" by (rule r1)
    show "remove_ui_lines processed = Inr out" by (rule run)
    show "same_size out processed" by (rule so)
    show "out ! y ! x = 0"
      if "y < length processed \<and> a + n \<le> length (processed ! y) \<and> 25 \<le> n \<and>
          (\<forall>x. a \<le> x \<and> x < a + n \<longrightarrow> processed ! y ! x = 255)"
        and "a \<le> x \<and> x < a + n" for x
      using hrun [of x] that by simp
    show "out ! y ! xv = 0"
      if "b + m \<le> length processed \<and> 25 \<le> m \<and>
          (\<forall>y. b \<le> y \<and> y < b + m \<longrightarrow> xv < length (processed ! y) \<and> processed ! y ! xv = 255)"
        and "b \<le> y \<and> y < b + m" for y
      using vrun [of y] that by simp
    show "p1 ! ys ! x = processed ! ys ! x"
      if "ys < length processed \<and> 0 < as \<and> as + ns < length (processed ! ys) \<and> ns < 25 \<and>
          processed ! ys ! (as - 1) = 0 \<and> processed ! ys ! (as + ns) = 0"
        and "as \<le> x \<and> x < as + ns" for x
      using hshort [of x] that by simp
    show "out ! y ! xs = p1 ! y ! xs"
      if "0 < bs \<and> bs + ms < length processed \<and> ms < 25 \<and>
          xs < length (processed ! (bs - 1)) \<and> processed ! (bs - 1) ! xs = 0 \<and>
          xs < length (processed ! (bs + ms)) \<and> processed ! (bs + ms) ! xs = 0"
        and "bs \<le> y \<and> y < bs + ms \<and> xs < length (processed ! y)" for y
      using vshort [of y] that by simp
  qed
qed

lemma ui_sample_size: "length ui_sample = 27" "y < 27 \<Longrightarrow> length (ui_sample ! y) = 27"
  by (simp_all add: ui_sample_def)

lemma ui_sample_nth:
  "y < 27 \<Longrightarrow> x < 27 \<Longrightarrow>
     ui_sample ! y ! x = (if y = 0 \<or> x = 0 \<or> (y = 2 \<and> x = 2) then 255 else 0)"
  by (simp add: ui_sample_def)

theorem ui_lines_removed_witness:
  "\<exists>p1 out.
     subtract ui_sample (morphologyEx ui_sample MORPH_OPEN (getStructuringElement_RECT (25, 1))) = Inr p1 \<and>
     remove_ui_lines ui_sample = Inr out \<and>
     ui_sample ! 0 ! 5 = 255 \<and> out ! 0 ! 5 = 0 \<and>
     ui_sample ! 7 ! 0 = 255 \<and> out ! 7 ! 0 = 0 \<and>
     ui_sample ! 2 ! 1 = 0 \<and> ui_sample ! 2 ! 3 = 0 \<and> ui_sample ! 1 ! 2 = 0 \<and> ui_sample ! 3 ! 2 = 0 \<and>
     ui_sample ! 2 ! 2 = 255 \<and> p1 ! 2 ! 2 = 255 \<and> out ! 2 ! 2 = 255"
proof -
  let ?h = "morphologyEx ui_sample MORPH_OPEN (getStructuringElement_RECT (25, 1))"
  have px: "ui_sample ! 0 ! 5 = 255" "ui_sample ! 7 ! 0 = 255"
    "ui_sample ! 2 ! 1 = 0" "ui_sample ! 2 ! 3 = 0" "ui_sample ! 1 ! 2 = 0" "ui_sample ! 3 ! 2 = 0"
    "ui_sample ! 2 ! 2 = 255"
    by (simp_all add: ui_sample_nth)
  have hh: "0 < length ui_sample \<and> 0 + 27 \<le> length (ui_sample ! 0) \<and> (25 :: nat) \<le> 27 \<and>
        (\<forall>x. 0 \<le> x \<and> x < 0 + 27 \<longrightarrow> ui_sample ! 0 ! x = 255)"
    by (simp add: ui_sample_size ui_sample_nth)
  have vh: "0 + 27 \<le> length ui_sample \<and> (25 :: nat) \<le> 27 \<and>
        (\<forall>y. 0 \<le> y \<and> y < 0 + 27 \<longrightarrow> 0 < length (ui_sample ! y) \<and> ui_sample ! y ! 0 = 255)"
    by (simp add: ui_sample_size ui_sample_nth)
  have hsh: "2 < length ui_sample \<and> (0 :: nat) < 2 \<and> 2 + 1 < length (ui_sample ! 2) \<and> (1 :: nat) < 25 \<and>
        ui_sample ! 2 ! (2 - 1) = 0 \<and> ui_sample ! 2 ! (2 + 1) = 0"
    by (simp add: ui_sample_size ui_sample_nth)
  have vsh: "(0 :: nat) < 2 \<and> 2 + 1 < length ui_sample \<and> (1 :: nat) < 25 \<and>
        2 < length (ui_sample ! (2 - 1)) \<and> ui_sample ! (2 - 1) ! 2 = 0 \<and>
        2 < length (ui_sample ! (2 + 1)) \<and> ui_sample ! (2 + 1) ! 2 = 0"
    by (simp add: ui_sample_size ui_sample_nth)
  from ui_lines_removed [of ui_sample 0 0 27 0 27 0 2 2 1 2 1 2]
  obtain p1 where "\<exists>out.
     subtract ui_sample ?h = Inr p1 \<and>
     remove_ui_lines ui_sample = Inr out \<and> same_size out ui_sample \<and>
     (0 < length ui_sample \<and> 0 + 27 \<le> length (ui_sample ! 0) \<and> (25 :: nat) \<le> 27 \<and>
        (\<forall>x. 0 \<le> x \<and> x < 0 + 27 \<longrightarrow> ui_sample ! 0 ! x = 255)
          \<longrightarrow> (\<forall>x. 0 \<le> x \<and> x < 0 + 27 \<longrightarrow> out ! 0 ! x = 0)) \<and>
     (0 + 27 \<le> length ui_sample \<and> (25 :: nat) \<le> 27 \<and>
        (\<forall>y. 0 \<le> y \<and> y < 0 + 27 \<longrightarrow> 0 < length (ui_sample ! y) \<and> ui_sample ! y ! 0 = 255)
          \<longrightarrow> (\<forall>y. 0 \<le> y \<and> y < 0 + 27 \<longrightarrow> out ! y ! 0 = 0)) \<and>
     (2 < length ui_sample \<and> (0 :: nat) < 2 \<and> 2 + 1 < length (ui_sample ! 2) \<and> (1 :: nat) < 25 \<and>
        ui_sample ! 2 ! (2 - 1) = 0 \<and> ui_sample ! 2 ! (2 + 1) = 0
          \<longrightarrow> (\<forall>x. 2 \<le> x \<and> x < 2 + 1 \<longrightarrow> p1 ! 2 ! x = ui_sample ! 2 ! x)) \<and>
     ((0 :: nat) < 2 \<and> 2 + 1 < length ui_sample \<and> (1 :: nat) < 25 \<and>
        2 < length (ui_sample ! (2 - 1)) \<and> ui_sample ! (2 - 1) ! 2 = 0 \<and>
        2 < length (ui_sample ! (2 + 1)) \<and> ui_sample ! (2 + 1) ! 2 = 0
          \<longrightarrow> (\<forall>y. 2 \<le> y \<and> y < 2 + 1 \<and> 2 < length (ui_sample ! y) \<longrightarrow> out ! y ! 2 = p1 ! y ! 2))" ..
  then obtain out where b:
    "subtract ui_sample ?h = Inr p1 \<and>
     remove_ui_lines ui_sample = Inr out \<and> same_size out ui_sample \<and>
     (0 < length ui_sample \<and> 0 + 27 \<le> length (ui_sample ! 0) \<and> (25 :: nat) \<le> 27 \<and>
        (\<forall>x. 0 \<le> x \<and> x < 0 + 27 \<longrightarrow> ui_sample ! 0 ! x = 255)
          \<longrightarrow> (\<forall>x. 0 \<le> x \<and> x < 0 + 27 \<longrightarrow> out ! 0 ! x = 0)) \<and>
     (0 + 27 \<le> length ui_sample \<and> (25 :: nat) \<le> 27 \<and>
        (\<forall>y. 0 \<le> y \<and> y < 0 + 27 \<longrightarrow> 0 < length (ui_sample ! y) \<and> ui_sample ! y ! 0 = 255)
          \<longrightarrow> (\<forall>y. 0 \<le> y \<and> y < 0 + 27 \<longrightarrow> out ! y ! 0 = 0)) \<and>
     (2 < length ui_sample \<and> (0 :: nat) < 2 \<and> 2 + 1 < length (ui_sample ! 2) \<and> (1 :: nat) < 25 \<and>
        ui_sample ! 2 ! (2 - 1) = 0 \<and> ui_sample ! 2 ! (2 + 1) = 0
          \<longrightarrow> (\<forall>x. 2 \<le> x \<and> x < 2 + 1 \<longrightarrow> p1 ! 2 ! x = ui_sample ! 2 ! x)) \<and>
     ((0 :: nat) < 2 \<and> 2 + 1 < length ui_sample \<and> (1 :: nat) < 25 \<and>
        2 < length (ui_sample ! (2 - 1)) \<and> ui_sample ! (2 - 1) ! 2 = 0 \<and>
        2 < length (ui_sample ! (2 + 1)) \<and> ui_sample ! (2 + 1) ! 2 = 0
          \<longrightarrow> (\<forall>y. 2 \<le> y \<and> y < 2 + 1 \<and> 2 < length (ui_sample ! y) \<longrightarrow> out ! y ! 2 = p1 ! y ! 2))" ..
  note r1 = b [THEN conjunct1]
  note run = b [THEN conjunct2, THEN conjunct1]
  note rest = b [THEN conjunct2, THEN conjunct2, THEN conjunct2]
  note h = rest [THEN conjunct1, THEN mp, OF hh]
  note v = rest [THEN conjunct2, THEN conjunct1, THEN mp, OF vh]
  note hs = rest [THEN conjunct2, THEN conjunct2, THEN conjunct1, THEN mp, OF hsh]
  note vs = rest [THEN conjunct2, THEN conjunct2, THEN conjunct2, THEN mp, OF vsh]
  have o1: "out ! 0 ! 5 = 0" using h [THEN spec, of 5] by simp
  have o2: "out ! 7 ! 0 = 0" using v [THEN spec, of 7] by simp
  have o3: "p1 ! 2 ! 2 = 255" using hs [THEN spec, of 2] px(7) by simp
  have o4: "out ! 2 ! 2 = p1 ! 2 ! 2" using vs [THEN spec, of 2] by (simp add: ui_sample_size)
  have o5: "out ! 2 ! 2 = 255" using o3 o4 by simp
  show ?thesis
    apply (rule exI [of _ p1])
    apply (rule exI [of _ out])
    apply (intro conjI)
    apply (rule r1 run px o1 o2 o3 o5)+
    done
qed

text \<open>
  The claim as stated fails at the border: in a row 40 pixels wide, a stroke of 13 white
  pixels that starts at the left edge survives the opening by the 25 by 1 element and
  is removed by the subtraction of the horizontal lines.
\<close>

theorem ui_lines_removed_counterexample:
  "subtract [replicate 13 255 @ replicate 27 0]
     (morphologyEx [replicate 13 255 @ replicate 27 0] MORPH_OPEN (getStructuringElement_RECT (25, 1)))
     = Inr [replicate 40 0]"
  by code_simp

end
